theory Spec2Isabelle
  imports Main "HOL-Library.Char_ord" "HOL-Library.List_Lexorder"
begin

section \<open>Data model\<close>

text \<open>
  The entities of \<^verbatim>\<open>types/schema\<close>. Every record there has a field \<^verbatim>\<open>id\<close>; the fields
  are prefixed here because one name can belong to one record only. A
  \<^verbatim>\<open>Record<string, Scene>\<close> is the list of the object's own properties in enumeration
  order (the order of \<^verbatim>\<open>Object.keys\<close> and \<^verbatim>\<open>Object.entries\<close>). A string is the list of
  its UTF-16 code units, and a character of the model is a code unit below 256:
  \<open>CHR 0xA0\<close> is U+00A0. Strings with a code unit of 256 or more are not values of the
  model. The scenes below are those of the graph analyzer, which declares its own
  \<^verbatim>\<open>Scene\<close>; the scenes inside a stored episode follow with the persistence engine.
\<close>

record Choice =
  choice_text :: string
  nextScene :: string

record Scene =
  scene_id :: string
  scene_title :: string
  scene_text :: "string list"
  choices :: "Choice list"

type_synonym scene_record = "(string \<times> Scene) list"

text \<open>
  Errors are values. \<open>Error\<close> carries the message of a \<^verbatim>\<open>throw new Error(...)\<close> of the
  source, \<open>TypeError\<close> is the fault the language raises by itself, \<open>DOMException\<close> the
  error of a failed storage request, \<open>SyntaxError\<close> the exception of \<^verbatim>\<open>JSON.parse\<close>, and
  \<open>Failed_to_import_episode\<close> the error that \<^verbatim>\<open>importEpisodeFromJSON\<close> builds around
  what it caught.
\<close>

datatype js_error =
    Error string
  | TypeError string
  | DOMException string
  | SyntaxError
  | Failed_to_import_episode js_error

subsection \<open>Property access\<close>

text \<open>
  \<^verbatim>\<open>scenes[k]\<close> reads an own property first and the prototype chain next. Every scene
  record the code handles is a plain object (a literal, the result of \<^verbatim>\<open>JSON.parse\<close>, or
  a structured clone read from the store), so its prototype is \<^verbatim>\<open>Object.prototype\<close>,
  whose property names are listed below. The values found there are functions (and the
  prototype object itself for \<^verbatim>\<open>__proto__\<close>): all truthy, none with a \<^verbatim>\<open>choices\<close>
  property.
\<close>

definition object_prototype_names :: "string list" where
  "object_prototype_names =
     [''constructor'', ''__defineGetter__'', ''__defineSetter__'', ''hasOwnProperty'',
      ''__lookupGetter__'', ''__lookupSetter__'', ''isPrototypeOf'',
      ''propertyIsEnumerable'', ''toString'', ''valueOf'', ''__proto__'',
      ''toLocaleString'']"

datatype 'a property = Undefined | Inherited | Own 'a

definition get_property :: "(string \<times> 'a) list \<Rightarrow> string \<Rightarrow> 'a property" where
  "get_property obj k =
     (case map_of obj k of
        Some v \<Rightarrow> Own v
      | None \<Rightarrow> if k \<in> set object_prototype_names then Inherited else Undefined)"

section \<open>Graph analyzer\<close>

subsection \<open>isSceneReachable\<close>

text \<open>
  The inner \<^verbatim>\<open>for (const choice of currentScene.choices)\<close>: \<open>None\<close> is the
  \<^verbatim>\<open>return true\<close> from inside the loop, \<open>Some queue\<close> the queue after the pushes.
\<close>

fun scan_choices :: "string \<Rightarrow> string set \<Rightarrow> string list \<Rightarrow> Choice list \<Rightarrow> string list option" where
  "scan_choices sceneId visited queue [] = Some queue"
| "scan_choices sceneId visited queue (choice # rest) =
     (if nextScene choice = sceneId then None
      else scan_choices sceneId visited
             (if nextScene choice \<notin> visited then queue @ [nextScene choice] else queue) rest)"

definition choice_targets :: "scene_record \<Rightarrow> string set" where
  "choice_targets scenes = (\<Union>scene \<in> snd ` set scenes. nextScene ` set (choices scene))"

text \<open>
  The \<^verbatim>\<open>while (queue.length > 0)\<close> loop. A value inherited from the prototype passes the
  \<^verbatim>\<open>if (!currentScene) continue\<close> guard, its \<^verbatim>\<open>choices\<close> is \<^verbatim>\<open>undefined\<close>, and iterating
  over that raises a \<^verbatim>\<open>TypeError\<close>.
\<close>

function while_queue :: "scene_record \<Rightarrow> string \<Rightarrow> string set \<Rightarrow> string list \<Rightarrow> js_error + bool" where
  "while_queue scenes sceneId visited [] = Inr False"
| "while_queue scenes sceneId visited (currentSceneId # queue) =
     (if currentSceneId \<in> visited then while_queue scenes sceneId visited queue
      else
        (case get_property scenes currentSceneId of
           Undefined \<Rightarrow> while_queue scenes sceneId (insert currentSceneId visited) queue
         | Inherited \<Rightarrow> Inl (TypeError ''currentScene.choices is not iterable'')
         | Own currentScene \<Rightarrow>
             (case scan_choices sceneId (insert currentSceneId visited) queue (choices currentScene) of
                None \<Rightarrow> Inr True
              | Some queue' \<Rightarrow> while_queue scenes sceneId (insert currentSceneId visited) queue')))"
  by pat_completeness auto

lemma scan_choices_queue:
  "scan_choices sceneId visited queue cs = Some queue' \<Longrightarrow>
   set queue' \<subseteq> set queue \<union> nextScene ` set cs"
proof (induction cs arbitrary: queue)
  case Nil
  then show ?case by simp
next
  case (Cons choice rest)
  from Cons.prems have "nextScene choice \<noteq> sceneId"
    by (auto split: if_splits)
  with Cons.prems have
    "scan_choices sceneId visited
       (if nextScene choice \<notin> visited then queue @ [nextScene choice] else queue) rest
     = Some queue'"
    by simp
  from Cons.IH [OF this] show ?case
    by (auto split: if_splits)
qed

lemma get_property_Own:
  "get_property obj k = Own v \<Longrightarrow> (k, v) \<in> set obj"
  by (auto simp: get_property_def map_of_SomeD split: option.splits if_splits)

lemma own_choices_targets:
  "get_property scenes k = Own scene \<Longrightarrow> nextScene ` set (choices scene) \<subseteq> choice_targets scenes"
  by (force simp: choice_targets_def dest: get_property_Own)

lemma finite_choice_targets: "finite (choice_targets scenes)"
  by (simp add: choice_targets_def)

definition pending :: "scene_record \<times> string \<times> string set \<times> string list \<Rightarrow> nat" where
  "pending = (\<lambda>(scenes, sceneId, visited, queue).
     card ((set queue \<union> choice_targets scenes) - visited))"

lemma pending_visit:
  assumes "c \<notin> visited" and "set queue' \<subseteq> set queue \<union> choice_targets scenes"
  shows "pending (scenes, sceneId, insert c visited, queue')
       < pending (scenes, sceneId, visited, c # queue)"
proof -
  have fin: "finite ((set (c # queue) \<union> choice_targets scenes) - visited)"
    by (simp add: finite_choice_targets)
  have "(set queue' \<union> choice_targets scenes) - insert c visited
      \<subset> (set (c # queue) \<union> choice_targets scenes) - visited"
    using assms by auto
  from psubset_card_mono [OF fin this] show ?thesis
    by (simp add: pending_def)
qed

lemma pending_skip:
  "pending (scenes, sceneId, visited, queue) \<le> pending (scenes, sceneId, visited, c # queue)"
  unfolding pending_def by (auto intro!: card_mono simp: finite_choice_targets)

termination while_queue
proof (relation "pending <*mlex*> measure (\<lambda>(scenes, sceneId, visited, queue). length queue)")
  show "wf (pending <*mlex*> measure (\<lambda>(scenes, sceneId, visited, queue). length queue))"
    by (simp add: wf_mlex)
next
  fix scenes :: scene_record and sceneId :: string and visited :: "string set"
    and currentSceneId :: string and queue :: "string list"
  show "((scenes, sceneId, visited, queue), (scenes, sceneId, visited, currentSceneId # queue))
        \<in> pending <*mlex*> measure (\<lambda>(scenes, sceneId, visited, queue). length queue)"
    by (intro mlex_leq pending_skip) simp
next
  fix scenes :: scene_record and sceneId :: string and visited :: "string set"
    and currentSceneId :: string and queue :: "string list"
  assume "currentSceneId \<notin> visited"
  then show "((scenes, sceneId, insert currentSceneId visited, queue),
              (scenes, sceneId, visited, currentSceneId # queue))
        \<in> pending <*mlex*> measure (\<lambda>(scenes, sceneId, visited, queue). length queue)"
    by (intro mlex_less pending_visit) auto
next
  fix scenes :: scene_record and sceneId :: string and visited :: "string set"
    and currentSceneId :: string and queue queue' :: "string list" and currentScene :: Scene
  assume new: "currentSceneId \<notin> visited"
    and own: "get_property scenes currentSceneId = Own currentScene"
    and scan: "scan_choices sceneId (insert currentSceneId visited) queue (choices currentScene)
               = Some queue'"
  have "set queue' \<subseteq> set queue \<union> choice_targets scenes"
    using scan_choices_queue [OF scan] own_choices_targets [OF own] by blast
  with new show "((scenes, sceneId, insert currentSceneId visited, queue'),
              (scenes, sceneId, visited, currentSceneId # queue))
        \<in> pending <*mlex*> measure (\<lambda>(scenes, sceneId, visited, queue). length queue)"
    by (intro mlex_less pending_visit)
qed

declare while_queue.simps [simp del]

definition isSceneReachable :: "scene_record \<Rightarrow> string \<Rightarrow> js_error + bool" where
  "isSceneReachable scenes sceneId =
     (if sceneId = ''start'' then Inr True
      else while_queue scenes sceneId {} [''start''])"

subsection \<open>findBrokenLinks\<close>

record BrokenLink =
  sceneId :: string
  choiceIndex :: nat

text \<open>
  \<^verbatim>\<open>scene.choices.forEach((choice, index) => ...)\<close> from position \<open>index\<close> on, and the
  outer \<^verbatim>\<open>Object.entries(scenes).forEach\<close>; both push onto \<open>brokenLinks\<close>.
\<close>

fun forEach_choice :: "scene_record \<Rightarrow> string \<Rightarrow> nat \<Rightarrow> Choice list \<Rightarrow> BrokenLink list \<Rightarrow> BrokenLink list" where
  "forEach_choice scenes sid index [] brokenLinks = brokenLinks"
| "forEach_choice scenes sid index (choice # rest) brokenLinks =
     forEach_choice scenes sid (Suc index) rest
       (if get_property scenes (nextScene choice) = Undefined
        then brokenLinks @ [\<lparr>sceneId = sid, choiceIndex = index\<rparr>]
        else brokenLinks)"

fun forEach_scene :: "scene_record \<Rightarrow> (string \<times> Scene) list \<Rightarrow> BrokenLink list \<Rightarrow> BrokenLink list" where
  "forEach_scene scenes [] brokenLinks = brokenLinks"
| "forEach_scene scenes ((sid, scene) # entries) brokenLinks =
     forEach_scene scenes entries (forEach_choice scenes sid 0 (choices scene) brokenLinks)"

definition findBrokenLinks :: "scene_record \<Rightarrow> BrokenLink list" where
  "findBrokenLinks scenes = forEach_scene scenes scenes []"

subsection \<open>findUnreachableScenes\<close>

text \<open>
  \<^verbatim>\<open>Object.keys(scenes).filter((sceneId) => !isSceneReachable(scenes, sceneId))\<close>: the
  callback runs on the keys in order, and an exception in one call ends the filter.
\<close>

fun filter_unreachable :: "scene_record \<Rightarrow> string list \<Rightarrow> js_error + string list" where
  "filter_unreachable scenes [] = Inr []"
| "filter_unreachable scenes (k # keys) =
     (case isSceneReachable scenes k of
        Inl e \<Rightarrow> Inl e
      | Inr reachable \<Rightarrow>
          (case filter_unreachable scenes keys of
             Inl e \<Rightarrow> Inl e
           | Inr rest \<Rightarrow> Inr (if reachable then rest else k # rest)))"

definition findUnreachableScenes :: "scene_record \<Rightarrow> js_error + string list" where
  "findUnreachableScenes scenes = filter_unreachable scenes (map fst scenes)"

section \<open>Persistence engine\<close>

subsection \<open>Stored records\<close>

text \<open>
  An ISO-8601 time stamp is represented by the instant it denotes, in milliseconds since
  the epoch: the code writes one with \<^verbatim>\<open>new Date().toISOString()\<close> and reads it with
  \<^verbatim>\<open>new Date(s).getTime()\<close> only.
\<close>

text \<open>
  The episodes that the persistence engine receives are not checked against their
  declared type: \<^verbatim>\<open>JSON.parse(jsonString) as Episode\<close> is an unchecked cast, and
  \<^verbatim>\<open>validateEpisode\<close> itself tests with \<^verbatim>\<open>Array.isArray\<close> what it was given. So a
  property of a scene that is declared an array is \<open>Array xs\<close>, or \<open>Not_an_array\<close> for any
  other value (a string, a number, an object, \<^verbatim>\<open>null\<close>, or no property at all).
  \<open>scene_value\<close> is a scene of the declared type as such a run-time value.
\<close>

datatype 'a array_property = Array "'a list" | Not_an_array

record EpisodeScene =
  es_id :: string
  es_title :: string
  es_text :: "string array_property"
  es_choices :: "Choice array_property"

definition scene_value :: "Scene \<Rightarrow> EpisodeScene" where
  "scene_value scene =
     \<lparr>es_id = scene_id scene, es_title = scene_title scene,
      es_text = Array (scene_text scene), es_choices = Array (choices scene)\<rparr>"

record Episode =
  episode_id :: string
  title :: string
  author :: string
  description :: string
  stardate :: string
  shipName :: string
  scenes :: "(string \<times> EpisodeScene) list"
  lastModified :: "nat option"

record CampaignEpisode =
  ce_episodeId :: string
  ce_title :: string
  ce_description :: string
  ce_order :: int
  previousEpisodeId :: "string option"
  condition_flags :: "(string \<times> bool) list option"
  initialState_flags :: "(string \<times> bool) list option"

record Campaign =
  campaign_id :: string
  campaign_title :: string
  campaign_author :: string
  campaign_description :: string
  version :: string
  campaign_episodes :: "CampaignEpisode list"
  campaign_lastModified :: "nat option"

datatype snapshot_type = auto_save | manual_save

record Snapshot =
  snapshot_id :: string
  episodeId :: string
  data :: string
  timestamp :: nat
  snapshot_type :: snapshot_type

subsection \<open>The platform: IndexedDB, JSON, the clock\<close>

text \<open>
  An object store with key path \<^verbatim>\<open>id\<close> holds at most one record per key, the key read
  from the record by \<open>key\<close>. \<^verbatim>\<open>put\<close> replaces, \<^verbatim>\<open>add\<close> fails with a ConstraintError
  (\<open>None\<close>) on a key that is present, \<^verbatim>\<open>delete\<close> of an absent key succeeds and changes
  nothing. Quota and I/O failures of the store are not modelled.
\<close>

definition store_get :: "('a \<Rightarrow> string) \<Rightarrow> 'a list \<Rightarrow> string \<Rightarrow> 'a option" where
  "store_get key store k = find (\<lambda>r. key r = k) store"

definition store_put :: "('a \<Rightarrow> string) \<Rightarrow> 'a list \<Rightarrow> 'a \<Rightarrow> 'a list" where
  "store_put key store v = filter (\<lambda>r. key r \<noteq> key v) store @ [v]"

definition store_add :: "('a \<Rightarrow> string) \<Rightarrow> 'a list \<Rightarrow> 'a \<Rightarrow> 'a list option" where
  "store_add key store v = (if key v \<in> key ` set store then None else Some (store @ [v]))"

definition store_delete :: "('a \<Rightarrow> string) \<Rightarrow> 'a list \<Rightarrow> string \<Rightarrow> 'a list" where
  "store_delete key store k = filter (\<lambda>r. key r \<noteq> k) store"

record database =
  episodes :: "Episode list"
  campaigns :: "Campaign list"
  snapshots :: "Snapshot list"

text \<open>
  A cursor over the index \<^verbatim>\<open>episodeId\<close> restricted to one key yields the records with
  that \<open>episodeId\<close> in the order of their primary keys.
\<close>

definition index_episodeId :: "Snapshot list \<Rightarrow> string \<Rightarrow> Snapshot list" where
  "index_episodeId store eid = sort_key snapshot_id (filter (\<lambda>s. episodeId s = eid) store)"

text \<open>What \<^verbatim>\<open>indexedDB.open\<close> does when \<^verbatim>\<open>getDatabase\<close> calls it.\<close>

datatype idb = Unsupported | Open_error string | Blocked | Available

definition getDatabase :: "idb \<Rightarrow> js_error + unit" where
  "getDatabase env =
     (case env of
        Unsupported \<Rightarrow> Inl (Error ''IndexedDB is not supported in this browser'')
      | Open_error message \<Rightarrow> Inl (Error (''Failed to open database: '' @ message))
      | Blocked \<Rightarrow>
          Inl (Error ''Database blocked. Please close other tabs with this application open.'')
      | Available \<Rightarrow> Inr ())"

text \<open>
  \<^verbatim>\<open>JSON.stringify(v)\<close>, \<^verbatim>\<open>JSON.stringify(v, null, 2)\<close> and \<^verbatim>\<open>JSON.parse(s) as Episode\<close>
  are the platform's and are parameters of the model; \<open>None\<close> is the exception of
  \<^verbatim>\<open>JSON.parse\<close>.
\<close>

record json_api =
  JSON_stringify :: "Episode \<Rightarrow> string"
  JSON_stringify_2 :: "Episode \<Rightarrow> string"
  JSON_parse :: "string \<Rightarrow> Episode option"

text \<open>The readings of the clock one call makes, in the order it makes them.\<close>

record clock =
  toISOString_1 :: nat
  Date_now :: nat
  toISOString_2 :: nat

text \<open>
  \<^verbatim>\<open>${n}\<close> in a template literal: the decimal digits of a non-negative integer. \<open>digit\<close>
  is read below sixteen only.
\<close>

definition digit :: "nat \<Rightarrow> char" where
  "digit n = ''0123456789abcdef'' ! n"

function dec :: "nat \<Rightarrow> string" where
  "dec n = (if n < 10 then [digit n] else dec (n div 10) @ [digit (n mod 10)])"
  by pat_completeness auto
termination
  by (relation "measure (\<lambda>n. n)") auto

declare dec.simps [simp del]

subsection \<open>validateEpisode\<close>

text \<open>
  \<^verbatim>\<open>!s || s.trim() === ""\<close> on a string: every code unit is one that
  \<^verbatim>\<open>String.prototype.trim\<close> strips. Those are the white space and the line terminators
  of the language: U+0009 to U+000D, U+0020, U+00A0, U+1680, U+2000 to U+200A, U+2028,
  U+2029, U+202F, U+205F, U+3000 and U+FEFF. Seven of them are below 256, and they are the
  white space of the model's characters.
\<close>

definition white_space :: "char \<Rightarrow> bool" where
  "white_space c =
     (c \<in> set [CHR 0x09, CHR 0x0A, CHR 0x0B, CHR 0x0C, CHR 0x0D, CHR 0x20, CHR 0xA0])"

definition blank :: "string \<Rightarrow> bool" where
  "blank s = list_all white_space s"

definition quoted :: "string \<Rightarrow> string" where
  "quoted s = [CHR 0x27] @ s @ [CHR 0x27]"

fun validate_choices :: "string \<Rightarrow> nat \<Rightarrow> Choice list \<Rightarrow> js_error + unit" where
  "validate_choices sid index [] = Inr ()"
| "validate_choices sid index (choice # rest) =
     (if blank (choice_text choice)
      then Inl (Error (''Choice text is required for choice '' @ dec index @ '' in scene '' @ quoted sid))
      else if blank (nextScene choice)
      then Inl (Error (''Next scene is required for choice '' @ dec index @ '' in scene '' @ quoted sid))
      else validate_choices sid (Suc index) rest)"

fun validate_scenes :: "(string \<times> EpisodeScene) list \<Rightarrow> js_error + unit" where
  "validate_scenes [] = Inr ()"
| "validate_scenes ((sid, scene) # entries) =
     (if blank (es_id scene)
      then Inl (Error (''Scene ID is required for scene '' @ quoted sid))
      else if blank (es_title scene)
      then Inl (Error (''Scene title is required for scene '' @ quoted sid))
      else if es_text scene = Not_an_array
      then Inl (Error (''Scene text must be an array for scene '' @ quoted sid))
      else
        (case es_choices scene of
           Not_an_array \<Rightarrow>
             Inl (Error (''Scene choices must be an array for scene '' @ quoted sid))
         | Array cs \<Rightarrow>
             (case validate_choices sid 0 cs of
                Inl e \<Rightarrow> Inl e
              | Inr u \<Rightarrow> validate_scenes entries)))"

definition validateEpisode :: "Episode \<Rightarrow> js_error + unit" where
  "validateEpisode episode =
     (if blank (title episode) then Inl (Error ''Episode title is required'')
      else if scenes episode = [] then Inl (Error ''Episode must have at least one scene'')
      else if get_property (scenes episode) ''start'' = Undefined
      then Inl (Error (''Episode must have a '' @ quoted ''start'' @ '' scene''))
      else validate_scenes (scenes episode))"

subsection \<open>cleanupSnapshots\<close>

text \<open>
  \<^verbatim>\<open>snapshots.sort((a, b) => time(b) - time(a))\<close>: a stable sort, newest first.
\<close>

definition sort_newest_first :: "Snapshot list \<Rightarrow> Snapshot list" where
  "sort_newest_first xs = sort_key (\<lambda>s. - int (timestamp s)) xs"

fun delete_each :: "Snapshot list \<Rightarrow> Snapshot list \<Rightarrow> Snapshot list" where
  "delete_each [] store = store"
| "delete_each (snapshot # rest) store =
     delete_each rest (store_delete snapshot_id store (snapshot_id snapshot))"

definition cleanupSnapshots :: "string \<Rightarrow> Snapshot list \<Rightarrow> Snapshot list" where
  "cleanupSnapshots eid store =
     (let sorted = sort_newest_first (index_episodeId store eid);
          autoSaves = filter (\<lambda>s. snapshot_type s = auto_save) sorted;
          manualSaves = filter (\<lambda>s. snapshot_type s = manual_save) sorted
      in if length autoSaves > 10 then delete_each (drop 10 autoSaves) store else store)"

text \<open>The list \<open>autoSaves\<close> of \<open>cleanupSnapshots\<close>, under a name of its own.\<close>

definition autoSaves_of :: "string \<Rightarrow> Snapshot list \<Rightarrow> Snapshot list" where
  "autoSaves_of k store =
     filter (\<lambda>s. snapshot_type s = auto_save) (sort_newest_first (index_episodeId store k))"

subsection \<open>Episode operations\<close>

text \<open>
  The transaction of \<^verbatim>\<open>saveEpisode\<close> over the two stores. When the \<^verbatim>\<open>add\<close> of the
  snapshot fails, its \<^verbatim>\<open>onerror\<close> handler resolves the promise with the episode id; the
  handler does not cancel the error event, so the transaction aborts and the \<^verbatim>\<open>put\<close> of
  the episode is rolled back with it.
\<close>

definition save_transaction :: "json_api \<Rightarrow> idb \<Rightarrow> clock \<Rightarrow> database \<Rightarrow> Episode \<Rightarrow> (js_error + string) \<times> database" where
  "save_transaction J env clk db episode =
     (case getDatabase env of
        Inl e \<Rightarrow> (Inl e, db)
      | Inr u \<Rightarrow>
          (let episodeWithTimestamp = episode\<lparr>lastModified := Some (toISOString_1 clk)\<rparr>;
               snapshotId = episode_id episode @ ''-'' @ dec (Date_now clk);
               snapshot = \<lparr>snapshot_id = snapshotId, episodeId = episode_id episode,
                           data = JSON_stringify J episodeWithTimestamp,
                           timestamp = toISOString_2 clk, snapshot_type = auto_save\<rparr>
           in case store_add snapshot_id (snapshots db) snapshot of
                None \<Rightarrow> (Inr (episode_id episode), db)
              | Some added \<Rightarrow>
                  (Inr (episode_id episode),
                   db\<lparr>episodes := store_put episode_id (episodes db) episodeWithTimestamp,
                      snapshots := cleanupSnapshots (episode_id episode) added\<rparr>)))"

text \<open>
  \<^verbatim>\<open>saveEpisode\<close>: the argument is \<open>None\<close> for \<^verbatim>\<open>null\<close>. The exception of
  \<^verbatim>\<open>validateEpisode\<close> is caught and logged as a warning, and the save continues.
\<close>

definition saveEpisode :: "json_api \<Rightarrow> idb \<Rightarrow> clock \<Rightarrow> database \<Rightarrow> Episode option \<Rightarrow> (js_error + string) \<times> database" where
  "saveEpisode J env clk db arg =
     (case arg of
        None \<Rightarrow> (Inl (Error ''Invalid episode data: Missing ID''), db)
      | Some episode \<Rightarrow>
          if episode_id episode = [] then (Inl (Error ''Invalid episode data: Missing ID''), db)
          else
            (case validateEpisode episode of
               Inl warning \<Rightarrow> save_transaction J env clk db episode
             | Inr u \<Rightarrow> save_transaction J env clk db episode))"

definition getEpisode :: "idb \<Rightarrow> database \<Rightarrow> string \<Rightarrow> js_error + Episode option" where
  "getEpisode env db k =
     (if k = [] then Inl (Error ''Episode ID is required'')
      else
        (case getDatabase env of
           Inl e \<Rightarrow> Inl e
         | Inr u \<Rightarrow> Inr (store_get episode_id (episodes db) k)))"

definition createManualSnapshot :: "json_api \<Rightarrow> idb \<Rightarrow> clock \<Rightarrow> database \<Rightarrow> string \<Rightarrow> (js_error + string) \<times> database" where
  "createManualSnapshot J env clk db eid =
     (if eid = [] then (Inl (Error ''Episode ID is required''), db)
      else
        (case getEpisode env db eid of
           Inl e \<Rightarrow> (Inl e, db)
         | Inr None \<Rightarrow> (Inl (Error ''Episode not found''), db)
         | Inr (Some episode) \<Rightarrow>
             (case getDatabase env of
                Inl e \<Rightarrow> (Inl e, db)
              | Inr u \<Rightarrow>
                  (let snapshotId = eid @ ''-manual-'' @ dec (Date_now clk);
                       snapshot = \<lparr>snapshot_id = snapshotId, episodeId = eid,
                                   data = JSON_stringify J episode,
                                   timestamp = toISOString_1 clk, snapshot_type = manual_save\<rparr>
                   in case store_add snapshot_id (snapshots db) snapshot of
                        None \<Rightarrow> (Inl (DOMException ''ConstraintError''), db)
                      | Some added \<Rightarrow> (Inr snapshotId, db\<lparr>snapshots := added\<rparr>)))))"

text \<open>
  \<^verbatim>\<open>deleteEpisode\<close>: the delete of the episode, then a cursor over the snapshots of the
  episode that deletes each record it visits.
\<close>

definition deleteEpisode :: "idb \<Rightarrow> database \<Rightarrow> string \<Rightarrow> (js_error + unit) \<times> database" where
  "deleteEpisode env db k =
     (if k = [] then (Inl (Error ''Episode ID is required''), db)
      else
        (case getDatabase env of
           Inl e \<Rightarrow> (Inl e, db)
         | Inr u \<Rightarrow>
             (Inr (),
              db\<lparr>episodes := store_delete episode_id (episodes db) k,
                 snapshots := delete_each (index_episodeId (snapshots db) k) (snapshots db)\<rparr>)))"

subsection \<open>Campaign operations\<close>

definition getCampaign :: "idb \<Rightarrow> database \<Rightarrow> string \<Rightarrow> js_error + Campaign option" where
  "getCampaign env db k =
     (if k = [] then Inl (Error ''Campaign ID is required'')
      else
        (case getDatabase env of
           Inl e \<Rightarrow> Inl e
         | Inr u \<Rightarrow> Inr (store_get campaign_id (campaigns db) k)))"

definition deleteCampaign :: "idb \<Rightarrow> database \<Rightarrow> string \<Rightarrow> (js_error + unit) \<times> database" where
  "deleteCampaign env db k =
     (if k = [] then (Inl (Error ''Campaign ID is required''), db)
      else
        (case getDatabase env of
           Inl e \<Rightarrow> (Inl e, db)
         | Inr u \<Rightarrow> (Inr (), db\<lparr>campaigns := store_delete campaign_id (campaigns db) k\<rparr>)))"

subsection \<open>Import, export, restore\<close>

text \<open>
  \<^verbatim>\<open>importEpisodeFromJSON\<close>: whatever is thrown inside the \<^verbatim>\<open>try\<close>, by the parser, by
  \<^verbatim>\<open>validateEpisode\<close> or by \<^verbatim>\<open>saveEpisode\<close>, is rethrown wrapped.
\<close>

definition importEpisodeFromJSON :: "json_api \<Rightarrow> idb \<Rightarrow> clock \<Rightarrow> database \<Rightarrow> string \<Rightarrow> (js_error + string) \<times> database" where
  "importEpisodeFromJSON J env clk db jsonString =
     (case JSON_parse J jsonString of
        None \<Rightarrow> (Inl (Failed_to_import_episode SyntaxError), db)
      | Some episode \<Rightarrow>
          (case validateEpisode episode of
             Inl e \<Rightarrow> (Inl (Failed_to_import_episode e), db)
           | Inr u \<Rightarrow>
               (case saveEpisode J env clk db (Some episode) of
                  (Inl e, db') \<Rightarrow> (Inl (Failed_to_import_episode e), db')
                | (Inr k, db') \<Rightarrow> (Inr k, db'))))"

text \<open>
  \<^verbatim>\<open>exportEpisodeToJSON\<close>: the rest pattern \<^verbatim>\<open>{ lastModified, ...exportEpisode }\<close> copies
  every property but \<^verbatim>\<open>lastModified\<close>.
\<close>

definition exportEpisodeToJSON :: "json_api \<Rightarrow> idb \<Rightarrow> database \<Rightarrow> string \<Rightarrow> js_error + string" where
  "exportEpisodeToJSON J env db k =
     (if k = [] then Inl (Error ''Episode ID is required'')
      else
        (case getEpisode env db k of
           Inl e \<Rightarrow> Inl e
         | Inr None \<Rightarrow> Inl (Error ''Episode not found'')
         | Inr (Some episode) \<Rightarrow>
             (let exportEpisode = episode\<lparr>lastModified := None\<rparr>
              in Inr (JSON_stringify_2 J exportEpisode))))"

definition restoreEpisodeFromSnapshot :: "json_api \<Rightarrow> idb \<Rightarrow> clock \<Rightarrow> database \<Rightarrow> string \<Rightarrow> (js_error + string) \<times> database" where
  "restoreEpisodeFromSnapshot J env clk db k =
     (if k = [] then (Inl (Error ''Snapshot ID is required''), db)
      else
        (case getDatabase env of
           Inl e \<Rightarrow> (Inl e, db)
         | Inr u \<Rightarrow>
             (case store_get snapshot_id (snapshots db) k of
                None \<Rightarrow> (Inl (Error ''Snapshot not found''), db)
              | Some snapshot \<Rightarrow>
                  (case JSON_parse J (data snapshot) of
                     None \<Rightarrow> (Inl (Error ''Failed to parse snapshot data''), db)
                   | Some episode \<Rightarrow>
                       (Inr (episode_id episode),
                        db\<lparr>episodes := store_put episode_id (episodes db)
                             (episode\<lparr>lastModified := Some (toISOString_1 clk)\<rparr>)\<rparr>)))))"

section \<open>Example data\<close>

subsection \<open>The episode template\<close>

text \<open>
  \<^verbatim>\<open>createNewEpisodeTemplate\<close>, with the identifier that \<^verbatim>\<open>generateId("ep-")\<close> returned as
  its argument; \<open>template_scenes\<close> is its scene graph.
\<close>

definition template_scenes :: scene_record where
  "template_scenes =
     [(''start'',
       \<lparr>scene_id = ''start'', scene_title = ''Starting Location'',
        scene_text = [''This is the first paragraph of your episode.'',
                      ''This is the second paragraph. You can add as many as you need.''],
        choices = [\<lparr>choice_text = ''This is the first choice the player can make.'',
                    nextScene = ''scene-two''\<rparr>]\<rparr>),
      (''scene-two'',
       \<lparr>scene_id = ''scene-two'', scene_title = ''Second Scene'',
        scene_text = [''This is the content of your second scene.''],
        choices = [\<lparr>choice_text = ''Go back to start'', nextScene = ''start''\<rparr>]\<rparr>)]"

definition createNewEpisodeTemplate :: "string \<Rightarrow> Episode" where
  "createNewEpisodeTemplate k =
     \<lparr>episode_id = k,
      title = ''New Episode'',
      author = ''Your Name'',
      description = ''A brief description of your episode.'',
      stardate = ''12345.6'',
      shipName = ''USS Enterprise NCC-1701'',
      scenes = map (\<lambda>entry. (fst entry, scene_value (snd entry))) template_scenes,
      lastModified = None\<rparr>"

subsection \<open>Scene graphs\<close>

text \<open>
  A graph with the cycle \<^verbatim>\<open>start -> A -> B -> A\<close>, a link to a scene that does not exist
  and a scene that no path reaches; and a graph whose start scene links to
  \<^verbatim>\<open>constructor\<close>, which is no scene of the graph.
\<close>

definition scene_with :: "string \<Rightarrow> string list \<Rightarrow> string \<times> Scene" where
  "scene_with k targets =
     (k, \<lparr>scene_id = k, scene_title = ''Scene'', scene_text = [],
          choices = map (\<lambda>t. \<lparr>choice_text = ''Go'', nextScene = t\<rparr>) targets\<rparr>)"

definition cyclic_graph :: scene_record where
  "cyclic_graph =
     [scene_with ''start'' [''A''], scene_with ''A'' [''B'', ''ghost''],
      scene_with ''B'' [''A''], scene_with ''C'' [''start'']]"

definition constructor_graph :: scene_record where
  "constructor_graph = [scene_with ''start'' [''constructor''], scene_with ''brig'' []]"

subsection \<open>An instance of the platform's JSON\<close>

text \<open>
  The examples need texts to store and to read back. \<open>SerializeJSON\<close> prints a value
  the way \<^verbatim>\<open>JSON.stringify\<close> does, with \<open>gap\<close> spaces of indentation per level (none
  and no line breaks for \<open>gap = 0\<close>); \<open>toISOString\<close> prints an instant the way
  \<^verbatim>\<open>Date.prototype.toISOString\<close> does for the years 1970 to 9999. The parser of the
  instance reads back the documents of a given list and rejects every other text. In the
  instance the value that stands where an array should is \<^verbatim>\<open>null\<close>.
\<close>

datatype json = JNull | JString string | JArray "json list" | JObject "(string \<times> json) list"

definition quote_char :: "char \<Rightarrow> string" where
  "quote_char c =
     (if c = CHR 0x08 then [CHR 0x5C, CHR ''b'']
      else if c = CHR 0x09 then [CHR 0x5C, CHR ''t'']
      else if c = CHR 0x0A then [CHR 0x5C, CHR ''n'']
      else if c = CHR 0x0C then [CHR 0x5C, CHR ''f'']
      else if c = CHR 0x0D then [CHR 0x5C, CHR ''r'']
      else if c = CHR 0x22 then [CHR 0x5C, CHR 0x22]
      else if c = CHR 0x5C then [CHR 0x5C, CHR 0x5C]
      else if of_char c < (32 :: nat)
      then [CHR 0x5C, CHR ''u'', CHR ''0'', CHR ''0'',
            digit (of_char c div 16), digit (of_char c mod 16)]
      else [c])"

definition QuoteJSONString :: "string \<Rightarrow> string" where
  "QuoteJSONString s = [CHR 0x22] @ concat (map quote_char s) @ [CHR 0x22]"

definition line_break :: "nat \<Rightarrow> nat \<Rightarrow> string" where
  "line_break gap level = (if gap = 0 then [] else CHR 0x0A # replicate (gap * level) CHR '' '')"

fun join :: "string \<Rightarrow> string list \<Rightarrow> string" where
  "join sep [] = []"
| "join sep [x] = x"
| "join sep (x # y # ys) = x @ sep @ join sep (y # ys)"

fun SerializeJSON :: "nat \<Rightarrow> nat \<Rightarrow> json \<Rightarrow> string" where
  "SerializeJSON gap level JNull = ''null''"
| "SerializeJSON gap level (JString s) = QuoteJSONString s"
| "SerializeJSON gap level (JArray xs) =
     (if xs = [] then ''[]''
      else ''['' @ line_break gap (Suc level)
           @ join ('','' @ line_break gap (Suc level)) (map (SerializeJSON gap (Suc level)) xs)
           @ line_break gap level @ '']'')"
| "SerializeJSON gap level (JObject ms) =
     (if ms = [] then ''{}''
      else ''{'' @ line_break gap (Suc level)
           @ join ('','' @ line_break gap (Suc level))
               (map (\<lambda>m. QuoteJSONString (fst m) @ '':'' @ (if gap = 0 then [] else '' '')
                           @ SerializeJSON gap (Suc level) (snd m)) ms)
           @ line_break gap level @ ''}'')"

definition pad :: "nat \<Rightarrow> nat \<Rightarrow> string" where
  "pad width n = replicate (width - length (dec n)) CHR ''0'' @ dec n"

definition toISOString :: "nat \<Rightarrow> string" where
  "toISOString ms =
     (let z = ms div 86400000 + 719468;
          era = z div 146097;
          doe = z - era * 146097;
          yoe = (doe - doe div 1460 + doe div 36524 - doe div 146096) div 365;
          doy = doe - (365 * yoe + yoe div 4 - yoe div 100);
          mp = (5 * doy + 2) div 153;
          d = doy - (153 * mp + 2) div 5 + 1;
          m = (if mp < 10 then mp + 3 else mp - 9);
          y = yoe + era * 400 + (if m \<le> 2 then 1 else 0);
          t = ms mod 86400000
      in pad 4 y @ ''-'' @ pad 2 m @ ''-'' @ pad 2 d @ ''T'' @ pad 2 (t div 3600000) @ '':''
         @ pad 2 (t div 60000 mod 60) @ '':'' @ pad 2 (t div 1000 mod 60) @ ''.''
         @ pad 3 (t mod 1000) @ ''Z'')"

definition choice_json :: "Choice \<Rightarrow> json" where
  "choice_json c = JObject [(''text'', JString (choice_text c)), (''nextScene'', JString (nextScene c))]"

definition scene_json :: "EpisodeScene \<Rightarrow> json" where
  "scene_json s =
     JObject [(''id'', JString (es_id s)), (''title'', JString (es_title s)),
              (''text'', (case es_text s of
                            Array ps \<Rightarrow> JArray (map JString ps)
                          | Not_an_array \<Rightarrow> JNull)),
              (''choices'', (case es_choices s of
                               Array cs \<Rightarrow> JArray (map choice_json cs)
                             | Not_an_array \<Rightarrow> JNull))]"

definition episode_json :: "Episode \<Rightarrow> json" where
  "episode_json e =
     JObject ([(''id'', JString (episode_id e)), (''title'', JString (title e)),
               (''author'', JString (author e)), (''description'', JString (description e)),
               (''stardate'', JString (stardate e)), (''shipName'', JString (shipName e)),
               (''scenes'', JObject (map (\<lambda>entry. (fst entry, scene_json (snd entry))) (scenes e)))]
              @ (case lastModified e of
                   None \<Rightarrow> []
                 | Some t \<Rightarrow> [(''lastModified'', JString (toISOString t))]))"

definition example_JSON :: "Episode list \<Rightarrow> json_api" where
  "example_JSON documents =
     \<lparr>JSON_stringify = (\<lambda>e. SerializeJSON 0 0 (episode_json e)),
      JSON_stringify_2 = (\<lambda>e. SerializeJSON 2 0 (episode_json e)),
      JSON_parse = (\<lambda>s. find (\<lambda>e. SerializeJSON 0 0 (episode_json e) = s
                                 \<or> SerializeJSON 2 0 (episode_json e) = s) documents)\<rparr>"

subsection \<open>Stores and clocks of the examples\<close>

definition clock0 :: clock where
  "clock0 = \<lparr>toISOString_1 = 1700000000000, Date_now = 1700000000001,
              toISOString_2 = 1700000000002\<rparr>"

definition empty_db :: database where
  "empty_db = \<lparr>episodes = [], campaigns = [], snapshots = []\<rparr>"

definition example_campaign :: Campaign where
  "example_campaign =
     \<lparr>campaign_id = ''camp-1'', campaign_title = ''New Campaign'',
      campaign_author = ''Your Name'',
      campaign_description = ''A brief description of your campaign.'', version = ''1.0'',
      campaign_episodes =
        [\<lparr>ce_episodeId = ''ep-1'', ce_title = ''First Episode'',
          ce_description = ''The first episode in your campaign.'', ce_order = 1,
          previousEpisodeId = None, condition_flags = None, initialState_flags = None\<rparr>],
      campaign_lastModified = Some 1700000000000\<rparr>"

definition example_snapshot :: "string \<Rightarrow> string \<Rightarrow> nat \<Rightarrow> snapshot_type \<Rightarrow> Snapshot" where
  "example_snapshot k eid t ty =
     \<lparr>snapshot_id = k, episodeId = eid, data = ''{}'', timestamp = t, snapshot_type = ty\<rparr>"

definition example_db :: database where
  "example_db =
     \<lparr>episodes = [(createNewEpisodeTemplate ''ep-1'')\<lparr>lastModified := Some 1700000000000\<rparr>,
                  (createNewEpisodeTemplate ''ep-2'')\<lparr>lastModified := Some 1700000000500\<rparr>],
      campaigns = [example_campaign],
      snapshots = [example_snapshot ''ep-1-1700000000000'' ''ep-1'' 1700000000000 auto_save,
                   example_snapshot ''ep-2-1700000000500'' ''ep-2'' 1700000000500 auto_save,
                   example_snapshot ''ep-1-manual-1700000000900'' ''ep-1'' 1700000000900 manual_save]\<rparr>"

definition clock1 :: clock where
  "clock1 = \<lparr>toISOString_1 = 1700000060000, Date_now = 1700000060001,
              toISOString_2 = 1700000060002\<rparr>"

text \<open>
  An episode with a blank title and no \<^verbatim>\<open>start\<close> scene, and an episode whose
  \<^verbatim>\<open>start\<close> scene has a \<^verbatim>\<open>text\<close> that is not an array.
\<close>

definition untitled :: Episode where
  "untitled =
     \<lparr>episode_id = ''ep-3'', title = '' '', author = ''Your Name'', description = ''Draft'',
      stardate = ''12345.6'', shipName = ''USS Enterprise NCC-1701'',
      scenes = [(''intro'', \<lparr>es_id = ''intro'', es_title = ''Intro'', es_text = Array [],
                             es_choices = Array []\<rparr>)],
      lastModified = None\<rparr>"


definition renamed :: Episode where
  "renamed = (createNewEpisodeTemplate ''ep-1'')\<lparr>title := ''Renamed''\<rparr>"

text \<open>
  The database after one save of the template into the empty database, and the database
  after one save of the episode without a title.
\<close>

definition saved_once :: database where
  "saved_once =
     snd (saveEpisode (example_JSON []) Available clock0 empty_db
            (Some (createNewEpisodeTemplate ''ep-1'')))"

definition saved_untitled :: database where
  "saved_untitled =
     snd (saveEpisode (example_JSON [untitled]) Available clock0 empty_db (Some untitled))"

text \<open>
  A history of fifteen automatic and three manual snapshots of the episode \<^verbatim>\<open>ep-1\<close>, and
  one snapshot of another episode.
\<close>

definition history_db :: database where
  "history_db =
     \<lparr>episodes = [(createNewEpisodeTemplate ''ep-1'')\<lparr>lastModified := Some 1700000015000\<rparr>],
      campaigns = [],
      snapshots =
        map (\<lambda>t. example_snapshot (''ep-1-'' @ dec t) ''ep-1'' t auto_save)
          [1700000001000, 1700000002000, 1700000003000, 1700000004000, 1700000005000,
           1700000006000, 1700000007000, 1700000008000, 1700000009000, 1700000010000,
           1700000011000, 1700000012000, 1700000013000, 1700000014000, 1700000015000]
        @ map (\<lambda>t. example_snapshot (''ep-1-manual-'' @ dec t) ''ep-1'' t manual_save)
          [1700000001500, 1700000007500, 1700000012500]
        @ [example_snapshot ''ep-2-1700000000500'' ''ep-2'' 1700000000500 auto_save]\<rparr>"

section \<open>The specification's words\<close>

text \<open>
  A choice is an edge from the scene that owns it to the scene it names, and a scene is
  reachable when a finite path of such edges leads from \<^verbatim>\<open>start\<close> to it (the empty path
  for \<^verbatim>\<open>start\<close> itself).
\<close>

definition edges :: "scene_record \<Rightarrow> (string \<times> string) set" where
  "edges g = {(k, t). \<exists>scene. map_of g k = Some scene \<and> t \<in> nextScene ` set (choices scene)}"

definition reachable :: "scene_record \<Rightarrow> string \<Rightarrow> bool" where
  "reachable g t = ((''start'', t) \<in> (edges g)\<^sup>*)"

text \<open>
  No choice of the graph targets a name that \<^verbatim>\<open>scenes[k]\<close> would find in the prototype
  only.
\<close>

definition inherited_target_free :: "scene_record \<Rightarrow> bool" where
  "inherited_target_free g = (choice_targets g \<inter> set object_prototype_names \<subseteq> fst ` set g)"

text \<open>
  The broken links of one entry of the graph, by ascending position of the choice.
\<close>

definition broken_choices :: "scene_record \<Rightarrow> string \<times> Scene \<Rightarrow> BrokenLink list" where
  "broken_choices g entry =
     map (\<lambda>j. \<lparr>sceneId = fst entry, choiceIndex = j\<rparr>)
       (filter (\<lambda>j. get_property g (nextScene (choices (snd entry) ! j)) = Undefined)
          [0..<length (choices (snd entry))])"




section \<open>Properties of the persistence engine\<close>

subsection \<open>Stores\<close>

lemma getDatabase_Available [simp]: "getDatabase Available = Inr ()"
  by (simp add: getDatabase_def)

lemma store_get_None:
  "k \<notin> key ` set store \<Longrightarrow> store_get key store k = None"
  by (auto simp: store_get_def find_None_iff)

lemma store_delete_absent:
  "k \<notin> key ` set store \<Longrightarrow> store_delete key store k = store"
  by (auto simp: store_delete_def filter_id_conv)

lemma delete_each_filter:
  "delete_each ds store = filter (\<lambda>s. snapshot_id s \<notin> snapshot_id ` set ds) store"
  by (induction ds arbitrary: store) (auto simp: store_delete_def intro: filter_cong)

lemma set_index_episodeId:
  "set (index_episodeId store k) = {s \<in> set store. episodeId s = k}"
  by (auto simp: index_episodeId_def)

text \<open>
  In a store whose keys are distinct, deleting the records the cursor yields one by one
  removes the snapshots of the episode and no other.
\<close>

lemma delete_index_episodeId:
  assumes "distinct (map snapshot_id store)"
  shows "delete_each (index_episodeId store k) store = filter (\<lambda>s. episodeId s \<noteq> k) store"
proof -
  have inj: "inj_on snapshot_id (set store)"
    using assms by (simp add: distinct_map)
  have "snapshot_id s \<notin> snapshot_id ` set (index_episodeId store k) \<longleftrightarrow> episodeId s \<noteq> k"
    if "s \<in> set store" for s
    using that inj by (auto simp: set_index_episodeId dest: inj_onD)
  then show ?thesis
    unfolding delete_each_filter by (intro filter_cong) auto
qed

subsection \<open>Identifier checks\<close>

text \<open>
  C10. Called with no episode, or with one whose id is empty, \<open>saveEpisode\<close> fails with
  an explicit error; so do \<open>getEpisode\<close>, \<open>deleteEpisode\<close>, \<open>createManualSnapshot\<close> and
  \<open>restoreEpisodeFromSnapshot\<close> on the empty identifier. The error is raised before the
  database is opened: it is the same whatever \<^verbatim>\<open>indexedDB.open\<close> would do (\<open>env\<close> is
  arbitrary), and the stores are returned as they were. Identifier arguments are strings,
  as the signatures declare; the empty string is the identifier that \<^verbatim>\<open>!id\<close> rejects.
\<close>

theorem empty_identifier_rejected:
  "saveEpisode J env clk db None = (Inl (Error ''Invalid episode data: Missing ID''), db)
   \<and> saveEpisode J env clk db (Some (episode\<lparr>episode_id := []\<rparr>))
       = (Inl (Error ''Invalid episode data: Missing ID''), db)
   \<and> getEpisode env db [] = Inl (Error ''Episode ID is required'')
   \<and> deleteEpisode env db [] = (Inl (Error ''Episode ID is required''), db)
   \<and> createManualSnapshot J env clk db [] = (Inl (Error ''Episode ID is required''), db)
   \<and> restoreEpisodeFromSnapshot J env clk db [] = (Inl (Error ''Snapshot ID is required''), db)"
  by (simp add: saveEpisode_def getEpisode_def deleteEpisode_def createManualSnapshot_def
      restoreEpisodeFromSnapshot_def)

subsection \<open>Unknown identifiers\<close>

text \<open>
  C6, as the code has it. With the database open and \<open>k\<close> a non-empty identifier that no
  store knows: \<open>getEpisode\<close> and \<open>getCampaign\<close> return \<^verbatim>\<open>null\<close>;
  \<open>restoreEpisodeFromSnapshot\<close> fails with the error \<^verbatim>\<open>Snapshot not found\<close> and writes
  nothing; \<open>deleteEpisode\<close> and \<open>deleteCampaign\<close> succeed, the first leaving the episodes
  as they were and the second the whole database.
\<close>

theorem unknown_id_lookup_delete_restore:
  assumes "k \<noteq> []"
    and "k \<notin> episode_id ` set (episodes db)"
    and "k \<notin> campaign_id ` set (campaigns db)"
    and "k \<notin> snapshot_id ` set (snapshots db)"
  shows "getEpisode Available db k = Inr None
       \<and> getCampaign Available db k = Inr None
       \<and> restoreEpisodeFromSnapshot J Available clk db k = (Inl (Error ''Snapshot not found''), db)
       \<and> fst (deleteEpisode Available db k) = Inr ()
       \<and> episodes (snd (deleteEpisode Available db k)) = episodes db
       \<and> deleteCampaign Available db k = (Inr (), db)"
  using assms
  by (simp add: getEpisode_def getCampaign_def restoreEpisodeFromSnapshot_def deleteEpisode_def
      deleteCampaign_def store_get_None store_delete_absent)

text \<open>The same at the identifier \<^verbatim>\<open>ghost\<close>, which the example database does not hold.\<close>

theorem unknown_id_witness:
  "getEpisode Available example_db ''ghost'' = Inr None
   \<and> getCampaign Available example_db ''ghost'' = Inr None
   \<and> restoreEpisodeFromSnapshot (example_JSON []) Available clock0 example_db ''ghost''
       = (Inl (Error ''Snapshot not found''), example_db)
   \<and> fst (deleteEpisode Available example_db ''ghost'') = Inr ()
   \<and> deleteCampaign Available example_db ''ghost'' = (Inr (), example_db)"
  using unknown_id_lookup_delete_restore [of "''ghost''" example_db "example_JSON []" clock0]
  by (simp add: example_db_def createNewEpisodeTemplate_def example_campaign_def
      example_snapshot_def)

text \<open>
  C6 as stated fails: deleting an episode or a campaign that the store does not hold is
  not an error.
\<close>

theorem delete_unknown_id_succeeds:
  "deleteEpisode Available empty_db ''ghost'' = (Inr (), empty_db)
   \<and> deleteCampaign Available empty_db ''ghost'' = (Inr (), empty_db)"
  by (simp add: deleteEpisode_def deleteCampaign_def empty_db_def store_delete_def
      index_episodeId_def)

subsection \<open>Cascade delete\<close>

text \<open>
  C8. With the database open, \<open>deleteEpisode k\<close> succeeds and leaves the database it found
  less the episode \<open>k\<close> and less every snapshot whose \<open>episodeId\<close> is \<open>k\<close>: the other
  episodes and the snapshots of other episodes stay, in their order, and the campaigns are
  not written. \<open>deleteCampaign k\<close> leaves the database less the campaign \<open>k\<close>: episodes
  and snapshots are not written. The keys of the snapshot store are distinct, as the keys
  of an object store are.
\<close>

theorem cascade_delete:
  assumes "k \<noteq> []" and "distinct (map snapshot_id (snapshots db))"
  shows "deleteEpisode Available db k =
           (Inr (), db\<lparr>episodes := filter (\<lambda>e. episode_id e \<noteq> k) (episodes db),
                        snapshots := filter (\<lambda>s. episodeId s \<noteq> k) (snapshots db)\<rparr>)
       \<and> deleteCampaign Available db k =
           (Inr (), db\<lparr>campaigns := filter (\<lambda>c. campaign_id c \<noteq> k) (campaigns db)\<rparr>)"
  using assms
  by (simp add: deleteEpisode_def deleteCampaign_def store_delete_def delete_index_episodeId)

text \<open>
  In the example database the episode \<^verbatim>\<open>ep-1\<close> has two snapshots and \<^verbatim>\<open>ep-2\<close> one.
\<close>

theorem cascade_delete_witness:
  "deleteEpisode Available example_db ''ep-1'' =
     (Inr (),
      \<lparr>episodes = [(createNewEpisodeTemplate ''ep-2'')\<lparr>lastModified := Some 1700000000500\<rparr>],
       campaigns = [example_campaign],
       snapshots = [example_snapshot ''ep-2-1700000000500'' ''ep-2'' 1700000000500 auto_save]\<rparr>)
   \<and> deleteCampaign Available example_db ''camp-1'' =
     (Inr (), example_db\<lparr>campaigns := []\<rparr>)"
  using cascade_delete [of "''ep-1''" example_db] cascade_delete [of "''camp-1''" example_db]
  by (simp add: example_db_def createNewEpisodeTemplate_def example_campaign_def
      example_snapshot_def)

subsection \<open>Saving\<close>

lemma saveEpisode_Some:
  "episode_id episode \<noteq> [] \<Longrightarrow>
   saveEpisode J env clk db (Some episode) = save_transaction J env clk db episode"
  by (simp add: saveEpisode_def split: sum.splits)

lemma store_get_put: "store_get key (store_put key store v) (key v) = Some v"
  by (induction store) (auto simp: store_get_def store_put_def)

lemma store_get_put_key: "key v = k \<Longrightarrow> store_get key (store_put key store v) k = Some v"
  using store_get_put [of key store v] by simp

lemma store_get_key: "store_get key store k = Some v \<Longrightarrow> key v = k"
  by (auto simp: store_get_def find_Some_iff)

lemma save_transaction_fresh:
  assumes "episode_id episode @ ''-'' @ dec (Date_now clk) \<notin> snapshot_id ` set (snapshots db)"
  shows "save_transaction J Available clk db episode =
     (Inr (episode_id episode),
      db\<lparr>episodes := store_put episode_id (episodes db)
                        (episode\<lparr>lastModified := Some (toISOString_1 clk)\<rparr>),
         snapshots := cleanupSnapshots (episode_id episode)
           (snapshots db @
            [\<lparr>snapshot_id = episode_id episode @ ''-'' @ dec (Date_now clk),
              episodeId = episode_id episode,
              data = JSON_stringify J (episode\<lparr>lastModified := Some (toISOString_1 clk)\<rparr>),
              timestamp = toISOString_2 clk, snapshot_type = auto_save\<rparr>])\<rparr>)"
  using assms by (simp add: save_transaction_def store_add_def Let_def)

lemma save_transaction_collision:
  assumes "episode_id episode @ ''-'' @ dec (Date_now clk) \<in> snapshot_id ` set (snapshots db)"
  shows "save_transaction J Available clk db episode = (Inr (episode_id episode), db)"
  using assms by (simp add: save_transaction_def store_add_def Let_def)

lemma length_index_episodeId: "length (index_episodeId store k) \<le> length store"
  by (simp add: index_episodeId_def)

lemma cleanupSnapshots_small:
  assumes "length store \<le> 10"
  shows "cleanupSnapshots k store = store"
proof -
  have "length (filter (\<lambda>s. snapshot_type s = auto_save) (sort_newest_first (index_episodeId store k)))
        \<le> length (index_episodeId store k)"
    using length_filter_le [of _ "sort_newest_first (index_episodeId store k)"]
    by (simp add: sort_newest_first_def)
  with assms length_index_episodeId [of store k] show ?thesis
    by (simp add: cleanupSnapshots_def Let_def)
qed

lemma saved_once_eq:
  "saved_once =
     \<lparr>episodes = [(createNewEpisodeTemplate ''ep-1'')\<lparr>lastModified := Some 1700000000000\<rparr>],
      campaigns = [],
      snapshots =
        [\<lparr>snapshot_id = ''ep-1-1700000000001'', episodeId = ''ep-1'',
          data = JSON_stringify (example_JSON [])
                   ((createNewEpisodeTemplate ''ep-1'')\<lparr>lastModified := Some 1700000000000\<rparr>),
          timestamp = 1700000000002, snapshot_type = auto_save\<rparr>]\<rparr>"
proof -
  have k: "episode_id (createNewEpisodeTemplate ''ep-1'') \<noteq> []"
    by (simp add: createNewEpisodeTemplate_def)
  have fresh: "episode_id (createNewEpisodeTemplate ''ep-1'') @ ''-'' @ dec (Date_now clock0)
               \<notin> snapshot_id ` set (snapshots empty_db)"
    by (simp add: empty_db_def)
  have d: "dec 1700000000001 = ''1700000000001''"
    by (simp add: dec.simps digit_def)
  show ?thesis
    unfolding saved_once_def saveEpisode_Some [OF k] save_transaction_fresh [OF fresh]
    by (simp add: cleanupSnapshots_small empty_db_def clock0_def store_put_def d)
      (simp add: createNewEpisodeTemplate_def)
qed

text \<open>
  C2 at a failing input. The template is saved into the empty database, and saved again
  under another title while \<^verbatim>\<open>Date.now()\<close> still returns the same millisecond, so that
  the key \<^verbatim>\<open>ep-1-1700000000001\<close> of the second snapshot is taken and its insert fails.
  The claim asks of the second save that it commit both writes and return the id, or
  commit neither and fail. It returns the id and has committed neither: the database is
  the one it found, with the old title and the one snapshot of the first save.
\<close>

theorem second_save_reports_success_without_writing:
  "fst (saveEpisode (example_JSON []) Available clock0 saved_once (Some renamed)) = Inr ''ep-1''
   \<and> snd (saveEpisode (example_JSON []) Available clock0 saved_once (Some renamed)) = saved_once
   \<and> map title (episodes saved_once) = [''New Episode'']
   \<and> map snapshot_id (snapshots saved_once) = [''ep-1-1700000000001'']"
proof -
  have k: "episode_id renamed \<noteq> []" and k1: "episode_id renamed = ''ep-1''"
    by (simp_all add: renamed_def createNewEpisodeTemplate_def)
  have d: "dec 1700000000001 = ''1700000000001''"
    by (simp add: dec.simps digit_def)
  have taken: "episode_id renamed @ ''-'' @ dec (Date_now clock0)
               \<in> snapshot_id ` set (snapshots saved_once)"
    by (simp add: saved_once_eq k1 clock0_def d)
  have "saveEpisode (example_JSON []) Available clock0 saved_once (Some renamed)
        = (Inr ''ep-1'', saved_once)"
    by (simp add: saveEpisode_Some [OF k] save_transaction_collision [OF taken] k1)
  then show ?thesis
    by (simp add: saved_once_eq) (simp add: createNewEpisodeTemplate_def)
qed

subsection \<open>Validation\<close>





lemma validateEpisode_lastModified [simp]:
  "validateEpisode (episode\<lparr>lastModified := t\<rparr>) = validateEpisode episode"
  by (simp add: validateEpisode_def)

lemma validateEpisode_untitled: "validateEpisode untitled = Inl (Error ''Episode title is required'')"
  by (simp add: validateEpisode_def untitled_def blank_def white_space_def)

lemma validateEpisode_template: "validateEpisode (createNewEpisodeTemplate k) = Inr ()"
  by (simp add: validateEpisode_def createNewEpisodeTemplate_def template_scenes_def
      scene_value_def blank_def white_space_def get_property_def)





subsection \<open>Export and import\<close>

lemma exportEpisodeToJSON_stored:
  assumes "store_get episode_id (episodes db) k = Some episode" and "k \<noteq> []"
  shows "exportEpisodeToJSON J Available db k
         = Inr (JSON_stringify_2 J (episode\<lparr>lastModified := None\<rparr>))"
  using assms by (simp add: exportEpisodeToJSON_def getEpisode_def)

text \<open>
  C7, as the code has it. Take an episode stored under a non-empty id, the database open,
  and a \<^verbatim>\<open>JSON.parse\<close> that reads back what \<^verbatim>\<open>JSON.stringify\<close> printed of the exported
  record. The export is the text of the record without its \<open>lastModified\<close>. If the
  episode passes \<open>validateEpisode\<close>, importing that text succeeds and returns the id,
  exporting again yields the same text, character for character, and where the key of the
  new snapshot is free the store now holds the record with the time of the import. If the
  episode fails \<open>validateEpisode\<close>, importing the exported text fails with the error of
  the validation and writes nothing.
\<close>

theorem export_import_export:
  fixes J :: json_api and clk :: clock and db :: database and episode :: Episode
  defines "exported \<equiv> JSON_stringify_2 J (episode\<lparr>lastModified := None\<rparr>)"
  assumes stored: "store_get episode_id (episodes db) k = Some episode"
    and k: "k \<noteq> []"
    and codec: "JSON_parse J (JSON_stringify_2 J (episode\<lparr>lastModified := None\<rparr>))
                = Some (episode\<lparr>lastModified := None\<rparr>)"
  shows "exportEpisodeToJSON J Available db k = Inr exported
       \<and> (validateEpisode episode = Inr () \<longrightarrow>
            fst (importEpisodeFromJSON J Available clk db exported) = Inr k
          \<and> exportEpisodeToJSON J Available
               (snd (importEpisodeFromJSON J Available clk db exported)) k = Inr exported
          \<and> (k @ ''-'' @ dec (Date_now clk) \<notin> snapshot_id ` set (snapshots db) \<longrightarrow>
               store_get episode_id
                 (episodes (snd (importEpisodeFromJSON J Available clk db exported))) k
               = Some (episode\<lparr>lastModified := Some (toISOString_1 clk)\<rparr>)))
       \<and> (\<forall>e. validateEpisode episode = Inl e \<longrightarrow>
            importEpisodeFromJSON J Available clk db exported
            = (Inl (Failed_to_import_episode e), db))"
proof -
  let ?e = "episode\<lparr>lastModified := None\<rparr>"
  have id: "episode_id ?e = k"
    using store_get_key [OF stored] by simp
  then have id': "episode_id ?e \<noteq> []"
    using k by simp
  have first: "exportEpisodeToJSON J Available db k = Inr exported"
    unfolding exported_def by (rule exportEpisodeToJSON_stored [OF stored k])
  have refused: "importEpisodeFromJSON J Available clk db exported
                 = (Inl (Failed_to_import_episode e), db)"
    if "validateEpisode episode = Inl e" for e
    using that codec by (simp add: importEpisodeFromJSON_def exported_def)
  have round_trip:
    "fst (importEpisodeFromJSON J Available clk db exported) = Inr k
     \<and> exportEpisodeToJSON J Available
          (snd (importEpisodeFromJSON J Available clk db exported)) k = Inr exported
     \<and> (k @ ''-'' @ dec (Date_now clk) \<notin> snapshot_id ` set (snapshots db) \<longrightarrow>
          store_get episode_id
            (episodes (snd (importEpisodeFromJSON J Available clk db exported))) k
          = Some (episode\<lparr>lastModified := Some (toISOString_1 clk)\<rparr>))"
    if valid: "validateEpisode episode = Inr ()"
  proof -
    have import: "importEpisodeFromJSON J Available clk db exported
                  = save_transaction J Available clk db ?e"
      using codec valid
      by (simp add: importEpisodeFromJSON_def exported_def saveEpisode_Some [OF id']
          save_transaction_def Let_def split: option.splits)
    show ?thesis
    proof (cases "episode_id ?e @ ''-'' @ dec (Date_now clk) \<in> snapshot_id ` set (snapshots db)")
      case True
      from save_transaction_collision [OF True] first True show ?thesis
        by (simp add: import id)
    next
      case False
      let ?db' = "snd (save_transaction J Available clk db ?e)"
      have held: "store_get episode_id (episodes ?db') k
            = Some (?e\<lparr>lastModified := Some (toISOString_1 clk)\<rparr>)"
        unfolding save_transaction_fresh [OF False] using id
        by (simp add: store_get_put_key)
      from exportEpisodeToJSON_stored [OF this k, of J]
      have "exportEpisodeToJSON J Available ?db' k = Inr exported"
        by (simp add: exported_def)
      with held show ?thesis
        by (simp add: import save_transaction_fresh [OF False] id)
    qed
  qed
  from first refused round_trip show ?thesis
    by blast
qed

lemma saved_untitled_episodes:
  "episodes saved_untitled = [untitled\<lparr>lastModified := Some 1700000000000\<rparr>]"
proof -
  have k: "episode_id untitled \<noteq> []"
    by (simp add: untitled_def)
  have fresh: "episode_id untitled @ ''-'' @ dec (Date_now clock0)
               \<notin> snapshot_id ` set (snapshots empty_db)"
    by (simp add: empty_db_def)
  show ?thesis
    unfolding saved_untitled_def saveEpisode_Some [OF k] save_transaction_fresh [OF fresh]
    by (simp add: store_put_def empty_db_def clock0_def)
qed

text \<open>
  The template, saved once, exported, imported a minute later and exported again; and
  the episode \<open>untitled\<close>, saved once, exported, and refused by the import.
\<close>

theorem export_import_export_witness:
  "exportEpisodeToJSON (example_JSON [createNewEpisodeTemplate ''ep-1'']) Available saved_once ''ep-1''
     = Inr (JSON_stringify_2 (example_JSON [createNewEpisodeTemplate ''ep-1''])
              (createNewEpisodeTemplate ''ep-1''))
   \<and> fst (importEpisodeFromJSON (example_JSON [createNewEpisodeTemplate ''ep-1'']) Available clock1
            saved_once
            (JSON_stringify_2 (example_JSON [createNewEpisodeTemplate ''ep-1''])
               (createNewEpisodeTemplate ''ep-1''))) = Inr ''ep-1''
   \<and> exportEpisodeToJSON (example_JSON [createNewEpisodeTemplate ''ep-1'']) Available
        (snd (importEpisodeFromJSON (example_JSON [createNewEpisodeTemplate ''ep-1'']) Available
                clock1 saved_once
                (JSON_stringify_2 (example_JSON [createNewEpisodeTemplate ''ep-1''])
                   (createNewEpisodeTemplate ''ep-1'')))) ''ep-1''
     = Inr (JSON_stringify_2 (example_JSON [createNewEpisodeTemplate ''ep-1''])
              (createNewEpisodeTemplate ''ep-1''))
   \<and> store_get episode_id
        (episodes (snd (importEpisodeFromJSON (example_JSON [createNewEpisodeTemplate ''ep-1''])
                          Available clock1 saved_once
                          (JSON_stringify_2 (example_JSON [createNewEpisodeTemplate ''ep-1''])
                             (createNewEpisodeTemplate ''ep-1''))))) ''ep-1''
     = Some ((createNewEpisodeTemplate ''ep-1'')\<lparr>lastModified := Some 1700000060000\<rparr>)
   \<and> importEpisodeFromJSON (example_JSON [untitled]) Available clock1 saved_untitled
        (JSON_stringify_2 (example_JSON [untitled]) untitled)
     = (Inl (Failed_to_import_episode (Error ''Episode title is required'')), saved_untitled)"
proof -
  let ?J = "example_JSON [createNewEpisodeTemplate ''ep-1'']"
  let ?stored = "(createNewEpisodeTemplate ''ep-1'')\<lparr>lastModified := Some 1700000000000\<rparr>"
  have strip: "?stored\<lparr>lastModified := None\<rparr> = createNewEpisodeTemplate ''ep-1''"
    by (simp add: createNewEpisodeTemplate_def)
  have later: "?stored\<lparr>lastModified := Some (toISOString_1 clock1)\<rparr>
               = (createNewEpisodeTemplate ''ep-1'')\<lparr>lastModified := Some 1700000060000\<rparr>"
    by (simp add: createNewEpisodeTemplate_def clock1_def)
  have stored: "store_get episode_id (episodes saved_once) ''ep-1'' = Some ?stored"
    by (simp add: saved_once_eq store_get_def) (simp add: createNewEpisodeTemplate_def)
  have k: "''ep-1'' \<noteq> []"
    by simp
  have valid: "validateEpisode ?stored = Inr ()"
    by (simp add: validateEpisode_template)
  have codec: "JSON_parse ?J (JSON_stringify_2 ?J (?stored\<lparr>lastModified := None\<rparr>))
               = Some (?stored\<lparr>lastModified := None\<rparr>)"
    unfolding strip by (simp add: example_JSON_def)
  have d: "dec (Date_now clock1) = ''1700000060001''"
    by (simp add: clock1_def dec.simps digit_def)
  have fresh: "''ep-1'' @ ''-'' @ dec (Date_now clock1) \<notin> snapshot_id ` set (snapshots saved_once)"
    by (simp add: saved_once_eq d)
  have template: "exportEpisodeToJSON ?J Available saved_once ''ep-1''
     = Inr (JSON_stringify_2 ?J (createNewEpisodeTemplate ''ep-1''))
   \<and> fst (importEpisodeFromJSON ?J Available clock1 saved_once
            (JSON_stringify_2 ?J (createNewEpisodeTemplate ''ep-1''))) = Inr ''ep-1''
   \<and> exportEpisodeToJSON ?J Available
        (snd (importEpisodeFromJSON ?J Available clock1 saved_once
                (JSON_stringify_2 ?J (createNewEpisodeTemplate ''ep-1'')))) ''ep-1''
     = Inr (JSON_stringify_2 ?J (createNewEpisodeTemplate ''ep-1''))
   \<and> store_get episode_id
        (episodes (snd (importEpisodeFromJSON ?J Available clock1 saved_once
                          (JSON_stringify_2 ?J (createNewEpisodeTemplate ''ep-1''))))) ''ep-1''
     = Some ((createNewEpisodeTemplate ''ep-1'')\<lparr>lastModified := Some 1700000060000\<rparr>)"
    using export_import_export [OF stored k codec, of clock1] valid fresh
    unfolding strip later by blast
  let ?U = "example_JSON [untitled]"
  have k3: "episode_id untitled = ''ep-3''"
    by (simp add: untitled_def)
  have strip': "untitled\<lparr>lastModified := Some 1700000000000, lastModified := None\<rparr> = untitled"
    by (simp add: untitled_def)
  have stored': "store_get episode_id (episodes saved_untitled) ''ep-3''
                = Some (untitled\<lparr>lastModified := Some 1700000000000\<rparr>)"
    by (simp add: saved_untitled_episodes store_get_def k3)
  have k': "''ep-3'' \<noteq> []"
    by simp
  have codec': "JSON_parse ?U (JSON_stringify_2 ?U
                   (untitled\<lparr>lastModified := Some 1700000000000, lastModified := None\<rparr>))
               = Some (untitled\<lparr>lastModified := Some 1700000000000, lastModified := None\<rparr>)"
    unfolding strip' by (simp add: example_JSON_def)
  have invalid: "validateEpisode (untitled\<lparr>lastModified := Some 1700000000000\<rparr>)
                 = Inl (Error ''Episode title is required'')"
    by (simp add: validateEpisode_untitled)
  have refused: "importEpisodeFromJSON ?U Available clock1 saved_untitled
        (JSON_stringify_2 ?U untitled)
     = (Inl (Failed_to_import_episode (Error ''Episode title is required'')), saved_untitled)"
    using export_import_export [OF stored' k' codec', of clock1] invalid
    unfolding strip' by blast
  from template refused show ?thesis
    by (simp only: conj_assoc)
qed

text \<open>
  C7 as stated fails for a stored episode that does not pass \<open>validateEpisode\<close>:
  \<open>saveEpisode\<close> has stored \<open>untitled\<close>, the export of it succeeds, and the import of
  the exported text is refused.
\<close>

theorem import_refuses_exported_episode:
  "map episode_id (episodes saved_untitled) = [''ep-3'']
   \<and> exportEpisodeToJSON (example_JSON [untitled]) Available saved_untitled ''ep-3''
     = Inr (JSON_stringify_2 (example_JSON [untitled]) untitled)
   \<and> JSON_parse (example_JSON [untitled]) (JSON_stringify_2 (example_JSON [untitled]) untitled)
     = Some untitled
   \<and> importEpisodeFromJSON (example_JSON [untitled]) Available clock1 saved_untitled
        (JSON_stringify_2 (example_JSON [untitled]) untitled)
     = (Inl (Failed_to_import_episode (Error ''Episode title is required'')), saved_untitled)"
proof -
  let ?J = "example_JSON [untitled]"
  have k: "episode_id untitled \<noteq> []" and k3: "episode_id untitled = ''ep-3''"
    by (simp_all add: untitled_def)
  have fresh: "episode_id untitled @ ''-'' @ dec (Date_now clock0)
               \<notin> snapshot_id ` set (snapshots empty_db)"
    by (simp add: empty_db_def)
  have strip: "untitled\<lparr>lastModified := Some 1700000000000, lastModified := None\<rparr> = untitled"
    by (simp add: untitled_def)
  have eps: "episodes saved_untitled = [untitled\<lparr>lastModified := Some 1700000000000\<rparr>]"
    unfolding saved_untitled_def saveEpisode_Some [OF k] save_transaction_fresh [OF fresh]
    by (simp add: store_put_def empty_db_def clock0_def)
  have stored: "store_get episode_id (episodes saved_untitled) ''ep-3''
                = Some (untitled\<lparr>lastModified := Some 1700000000000\<rparr>)"
    by (simp add: eps store_get_def k3)
  have export: "exportEpisodeToJSON ?J Available saved_untitled ''ep-3''
                = Inr (JSON_stringify_2 ?J untitled)"
    using exportEpisodeToJSON_stored [OF stored, of ?J] by (simp add: strip)
  have parse: "JSON_parse ?J (JSON_stringify_2 ?J untitled) = Some untitled"
    by (simp add: example_JSON_def)
  have "importEpisodeFromJSON ?J Available clock1 saved_untitled (JSON_stringify_2 ?J untitled)
        = (Inl (Failed_to_import_episode (Error ''Episode title is required'')), saved_untitled)"
    by (simp add: importEpisodeFromJSON_def parse validateEpisode_untitled)
  with export parse show ?thesis
    by (simp add: eps k3)
qed

subsection \<open>Retention\<close>

lemma set_sort_newest_first [simp]: "set (sort_newest_first xs) = set xs"
  by (simp add: sort_newest_first_def)

lemma set_autoSaves_of:
  "set (autoSaves_of k store) = {s \<in> set store. episodeId s = k \<and> snapshot_type s = auto_save}"
  by (auto simp: autoSaves_of_def set_index_episodeId)

lemma distinct_store: "distinct (map snapshot_id store) \<Longrightarrow> distinct store"
  by (simp add: distinct_map)

lemma distinct_autoSaves_of:
  "distinct store \<Longrightarrow> distinct (autoSaves_of k store)"
  by (simp add: autoSaves_of_def sort_newest_first_def index_episodeId_def)

lemma length_autoSaves_of:
  "length (autoSaves_of k store)
   = length (filter (\<lambda>s. episodeId s = k \<and> snapshot_type s = auto_save) store)"
  by (simp add: autoSaves_of_def sort_newest_first_def index_episodeId_def filter_sort conj_commute)

lemma sorted_autoSaves_of:
  "sorted (map (\<lambda>s. - int (timestamp s)) (autoSaves_of k store))"
  by (simp add: autoSaves_of_def sort_newest_first_def sorted_filter)

lemma cleanupSnapshots_filter:
  assumes "distinct (map snapshot_id store)"
  shows "cleanupSnapshots k store = filter (\<lambda>s. s \<notin> set (drop 10 (autoSaves_of k store))) store"
proof -
  have inj: "inj_on snapshot_id (set store)"
    using assms by (simp add: distinct_map)
  have sub: "set (drop 10 (autoSaves_of k store)) \<subseteq> set store"
    using set_drop_subset [of 10 "autoSaves_of k store"] by (auto simp: set_autoSaves_of)
  have "snapshot_id s \<notin> snapshot_id ` set (drop 10 (autoSaves_of k store))
        \<longleftrightarrow> s \<notin> set (drop 10 (autoSaves_of k store))" if "s \<in> set store" for s
    using that inj sub by (auto dest: inj_onD)
  then have "delete_each (drop 10 (autoSaves_of k store)) store
             = filter (\<lambda>s. s \<notin> set (drop 10 (autoSaves_of k store))) store"
    unfolding delete_each_filter by (intro filter_cong) auto
  then show ?thesis
    by (simp add: cleanupSnapshots_def Let_def autoSaves_of_def [symmetric])
qed

lemma cleanupSnapshots_keeps:
  assumes "distinct (map snapshot_id store)"
    and "\<And>s. P s \<Longrightarrow> \<not> (episodeId s = k \<and> snapshot_type s = auto_save)"
  shows "filter P (cleanupSnapshots k store) = filter P store"
proof -
  have "s \<notin> set (drop 10 (autoSaves_of k store))" if "P s" for s
    using assms(2) [OF that] in_set_dropD [of s 10 "autoSaves_of k store"]
    by (auto simp: set_autoSaves_of)
  then show ?thesis
    unfolding cleanupSnapshots_filter [OF assms(1)] filter_filter
    by (intro filter_cong) auto
qed

lemma cleanupSnapshots_autoSaves:
  assumes "distinct (map snapshot_id store)"
  shows "set (filter (\<lambda>s. episodeId s = k \<and> snapshot_type s = auto_save) (cleanupSnapshots k store))
         = set (take 10 (autoSaves_of k store))"
proof -
  let ?A = "autoSaves_of k store"
  have d: "distinct ?A"
    using assms by (simp add: distinct_autoSaves_of distinct_store)
  have split: "set ?A = set (take 10 ?A) \<union> set (drop 10 ?A)"
    using set_append [of "take 10 ?A" "drop 10 ?A"] by simp
  have disj: "set (take 10 ?A) \<inter> set (drop 10 ?A) = {}"
    using d distinct_append [of "take 10 ?A" "drop 10 ?A"] by simp
  have "set (filter (\<lambda>s. episodeId s = k \<and> snapshot_type s = auto_save) (cleanupSnapshots k store))
        = set ?A - set (drop 10 ?A)"
    unfolding cleanupSnapshots_filter [OF assms] by (auto simp: set_autoSaves_of)
  also have "\<dots> = set (take 10 ?A)"
    using split disj by blast
  finally show ?thesis .
qed

lemma cleanupSnapshots_count:
  assumes "distinct (map snapshot_id store)"
  shows "length (filter (\<lambda>s. episodeId s = k \<and> snapshot_type s = auto_save) (cleanupSnapshots k store))
         = min 10 (length (filter (\<lambda>s. episodeId s = k \<and> snapshot_type s = auto_save) store))"
proof -
  let ?A = "autoSaves_of k store"
  let ?kept = "filter (\<lambda>s. episodeId s = k \<and> snapshot_type s = auto_save) (cleanupSnapshots k store)"
  have "distinct (cleanupSnapshots k store)"
    unfolding cleanupSnapshots_filter [OF assms] using assms by (simp add: distinct_store)
  then have "distinct ?kept"
    by simp
  then have "length ?kept = card (set ?kept)"
    by (rule distinct_card [symmetric])
  also have "\<dots> = card (set (take 10 ?A))"
    by (simp only: cleanupSnapshots_autoSaves [OF assms])
  also have "\<dots> = length (take 10 ?A)"
    using assms by (intro distinct_card distinct_take) (simp add: distinct_autoSaves_of distinct_store)
  also have "\<dots> = min 10 (length (filter (\<lambda>s. episodeId s = k \<and> snapshot_type s = auto_save) store))"
    by (simp add: length_autoSaves_of min.commute)
  finally show ?thesis .
qed

lemma cleanupSnapshots_newest:
  assumes "distinct (map snapshot_id store)"
    and kept: "kept \<in> set (cleanupSnapshots k store)"
              "episodeId kept = k" "snapshot_type kept = auto_save"
    and gone: "gone \<in> set store" "gone \<notin> set (cleanupSnapshots k store)"
  shows "timestamp gone \<le> timestamp kept"
proof -
  let ?A = "autoSaves_of k store"
  have "kept \<in> set (take 10 ?A)"
    using kept cleanupSnapshots_autoSaves [OF assms(1), of k] by auto
  moreover have "gone \<in> set (drop 10 ?A)"
    using gone unfolding cleanupSnapshots_filter [OF assms(1)] by simp
  moreover have "sorted (map (\<lambda>s. - int (timestamp s)) (take 10 ?A @ drop 10 ?A))"
    using sorted_autoSaves_of [of k store] by simp
  ultimately have "- int (timestamp kept) \<le> - int (timestamp gone)"
    unfolding map_append sorted_append by auto
  then show ?thesis by simp
qed

lemma length_filter_by_type:
  "length (filter (\<lambda>s. episodeId s = k) store)
   = length (filter (\<lambda>s. episodeId s = k \<and> snapshot_type s = auto_save) store)
   + length (filter (\<lambda>s. episodeId s = k \<and> snapshot_type s = manual_save) store)"
proof (induction store)
  case Nil
  then show ?case by simp
next
  case (Cons s store)
  then show ?case by (cases "snapshot_type s") auto
qed

text \<open>
  C5. A save whose snapshot insert succeeds leaves in the snapshot store what
  \<open>cleanupSnapshots\<close> leaves of the store with the new snapshot added. Of that store
  every manual snapshot is kept, and every snapshot of another episode; of the automatic
  snapshots of the episode, ten are kept when there are ten or more (all of them
  otherwise), and each one kept is at least as recent as each one deleted. In particular,
  from fifteen automatic and three manual snapshots of the episode, thirteen snapshots
  of the episode remain. The keys of the snapshot store are distinct, as the keys of an
  object store are.
\<close>

theorem retention_after_save:
  fixes episode :: Episode and clk :: clock and db :: database and J :: json_api
  defines "new \<equiv> \<lparr>snapshot_id = episode_id episode @ ''-'' @ dec (Date_now clk),
                     episodeId = episode_id episode,
                     data = JSON_stringify J (episode\<lparr>lastModified := Some (toISOString_1 clk)\<rparr>),
                     timestamp = toISOString_2 clk, snapshot_type = auto_save\<rparr>"
    and "after \<equiv> snapshots (snd (saveEpisode J Available clk db (Some episode)))"
  assumes k: "episode_id episode \<noteq> []"
    and fresh: "episode_id episode @ ''-'' @ dec (Date_now clk) \<notin> snapshot_id ` set (snapshots db)"
    and keys: "distinct (map snapshot_id (snapshots db))"
  shows "after = cleanupSnapshots (episode_id episode) (snapshots db @ [new])
       \<and> filter (\<lambda>s. snapshot_type s = manual_save) after
           = filter (\<lambda>s. snapshot_type s = manual_save) (snapshots db)
       \<and> filter (\<lambda>s. episodeId s \<noteq> episode_id episode) after
           = filter (\<lambda>s. episodeId s \<noteq> episode_id episode) (snapshots db)
       \<and> length (filter (\<lambda>s. episodeId s = episode_id episode \<and> snapshot_type s = auto_save) after)
           = min 10 (Suc (length (filter (\<lambda>s. episodeId s = episode_id episode
                                              \<and> snapshot_type s = auto_save) (snapshots db))))
       \<and> (\<forall>kept gone. kept \<in> set after \<and> episodeId kept = episode_id episode
              \<and> snapshot_type kept = auto_save
              \<and> gone \<in> set (snapshots db @ [new]) \<and> gone \<notin> set after
              \<longrightarrow> timestamp gone \<le> timestamp kept)
       \<and> (length (filter (\<lambda>s. episodeId s = episode_id episode \<and> snapshot_type s = auto_save)
                    (snapshots db)) = 15
            \<and> length (filter (\<lambda>s. episodeId s = episode_id episode \<and> snapshot_type s = manual_save)
                    (snapshots db)) = 3
            \<longrightarrow> length (filter (\<lambda>s. episodeId s = episode_id episode) after) = 13)"
proof -
  let ?k = "episode_id episode"
  let ?store = "snapshots db @ [new]"
  have after: "after = cleanupSnapshots ?k ?store"
    unfolding after_def new_def by (simp add: saveEpisode_Some [OF k] save_transaction_fresh [OF fresh])
  have keys': "distinct (map snapshot_id ?store)"
    using keys fresh by (simp add: new_def)
  have manual: "filter (\<lambda>s. snapshot_type s = manual_save) after
                = filter (\<lambda>s. snapshot_type s = manual_save) (snapshots db)"
    unfolding after using cleanupSnapshots_keeps [OF keys', of "\<lambda>s. snapshot_type s = manual_save" ?k]
    by (simp add: new_def)
  have others: "filter (\<lambda>s. episodeId s \<noteq> ?k) after = filter (\<lambda>s. episodeId s \<noteq> ?k) (snapshots db)"
    unfolding after using cleanupSnapshots_keeps [OF keys', of "\<lambda>s. episodeId s \<noteq> ?k" ?k]
    by (simp add: new_def)
  have count: "length (filter (\<lambda>s. episodeId s = ?k \<and> snapshot_type s = auto_save) after)
               = min 10 (Suc (length (filter (\<lambda>s. episodeId s = ?k \<and> snapshot_type s = auto_save)
                                        (snapshots db))))"
    unfolding after cleanupSnapshots_count [OF keys'] by (simp add: new_def)
  have newest: "timestamp gone \<le> timestamp kept"
    if "kept \<in> set after" "episodeId kept = ?k" "snapshot_type kept = auto_save"
       "gone \<in> set ?store" "gone \<notin> set after" for kept gone
    using that cleanupSnapshots_newest [OF keys', of kept ?k gone] unfolding after by blast
  have manual_k: "filter (\<lambda>s. episodeId s = ?k \<and> snapshot_type s = manual_save) after
                  = filter (\<lambda>s. episodeId s = ?k \<and> snapshot_type s = manual_save) (snapshots db)"
    unfolding after
    using cleanupSnapshots_keeps [OF keys', of "\<lambda>s. episodeId s = ?k \<and> snapshot_type s = manual_save" ?k]
    by (simp add: new_def)
  have thirteen: "length (filter (\<lambda>s. episodeId s = ?k) after) = 13"
    if "length (filter (\<lambda>s. episodeId s = ?k \<and> snapshot_type s = auto_save) (snapshots db)) = 15"
       "length (filter (\<lambda>s. episodeId s = ?k \<and> snapshot_type s = manual_save) (snapshots db)) = 3"
    using that count manual_k by (simp add: length_filter_by_type [of ?k after])
  from after manual others count newest thirteen show ?thesis
    by blast
qed

lemma history_ids:
  "map snapshot_id (snapshots history_db) =
     [''ep-1-1700000001000'', ''ep-1-1700000002000'', ''ep-1-1700000003000'',
      ''ep-1-1700000004000'', ''ep-1-1700000005000'', ''ep-1-1700000006000'',
      ''ep-1-1700000007000'', ''ep-1-1700000008000'', ''ep-1-1700000009000'',
      ''ep-1-1700000010000'', ''ep-1-1700000011000'', ''ep-1-1700000012000'',
      ''ep-1-1700000013000'', ''ep-1-1700000014000'', ''ep-1-1700000015000'',
      ''ep-1-manual-1700000001500'', ''ep-1-manual-1700000007500'',
      ''ep-1-manual-1700000012500'', ''ep-2-1700000000500'']"
  by (simp add: history_db_def example_snapshot_def dec.simps digit_def)

lemma history_distinct: "distinct (map snapshot_id (snapshots history_db))"
  unfolding history_ids by simp

lemma history_snapshots:
  "snapshots history_db =
     [example_snapshot ''ep-1-1700000001000'' ''ep-1'' 1700000001000 auto_save,
      example_snapshot ''ep-1-1700000002000'' ''ep-1'' 1700000002000 auto_save,
      example_snapshot ''ep-1-1700000003000'' ''ep-1'' 1700000003000 auto_save,
      example_snapshot ''ep-1-1700000004000'' ''ep-1'' 1700000004000 auto_save,
      example_snapshot ''ep-1-1700000005000'' ''ep-1'' 1700000005000 auto_save,
      example_snapshot ''ep-1-1700000006000'' ''ep-1'' 1700000006000 auto_save,
      example_snapshot ''ep-1-1700000007000'' ''ep-1'' 1700000007000 auto_save,
      example_snapshot ''ep-1-1700000008000'' ''ep-1'' 1700000008000 auto_save,
      example_snapshot ''ep-1-1700000009000'' ''ep-1'' 1700000009000 auto_save,
      example_snapshot ''ep-1-1700000010000'' ''ep-1'' 1700000010000 auto_save,
      example_snapshot ''ep-1-1700000011000'' ''ep-1'' 1700000011000 auto_save,
      example_snapshot ''ep-1-1700000012000'' ''ep-1'' 1700000012000 auto_save,
      example_snapshot ''ep-1-1700000013000'' ''ep-1'' 1700000013000 auto_save,
      example_snapshot ''ep-1-1700000014000'' ''ep-1'' 1700000014000 auto_save,
      example_snapshot ''ep-1-1700000015000'' ''ep-1'' 1700000015000 auto_save,
      example_snapshot ''ep-1-manual-1700000001500'' ''ep-1'' 1700000001500 manual_save,
      example_snapshot ''ep-1-manual-1700000007500'' ''ep-1'' 1700000007500 manual_save,
      example_snapshot ''ep-1-manual-1700000012500'' ''ep-1'' 1700000012500 manual_save,
      example_snapshot ''ep-2-1700000000500'' ''ep-2'' 1700000000500 auto_save]"
  by (simp add: history_db_def dec.simps digit_def)

text \<open>
  On the example history the save of a minute later leaves the nine newest of the fifteen
  automatic snapshots, the three manual ones, the snapshot of the other episode, and the
  new snapshot.
\<close>

theorem retention_witness:
  "map snapshot_id
     (snapshots (snd (saveEpisode (example_JSON []) Available clock1 history_db
                        (Some (createNewEpisodeTemplate ''ep-1'')))))
   = [''ep-1-1700000007000'', ''ep-1-1700000008000'', ''ep-1-1700000009000'',
      ''ep-1-1700000010000'', ''ep-1-1700000011000'', ''ep-1-1700000012000'',
      ''ep-1-1700000013000'', ''ep-1-1700000014000'', ''ep-1-1700000015000'',
      ''ep-1-manual-1700000001500'', ''ep-1-manual-1700000007500'',
      ''ep-1-manual-1700000012500'', ''ep-2-1700000000500'', ''ep-1-1700000060001'']
   \<and> length (filter (\<lambda>s. episodeId s = ''ep-1'')
        (snapshots (snd (saveEpisode (example_JSON []) Available clock1 history_db
                           (Some (createNewEpisodeTemplate ''ep-1'')))))) = 13"
proof -
  let ?e = "createNewEpisodeTemplate ''ep-1''"
  have k: "episode_id ?e \<noteq> []" and k1: "episode_id ?e = ''ep-1''"
    by (simp_all add: createNewEpisodeTemplate_def)
  have d: "dec (Date_now clock1) = ''1700000060001''"
    by (simp add: clock1_def dec.simps digit_def)
  have fresh: "episode_id ?e @ ''-'' @ dec (Date_now clock1)
               \<notin> snapshot_id ` set (snapshots history_db)"
    unfolding set_map [symmetric] history_ids by (simp add: k1 d)
  have autos: "length (filter (\<lambda>s. episodeId s = episode_id ?e \<and> snapshot_type s = auto_save)
                         (snapshots history_db)) = 15"
    unfolding history_snapshots by (simp add: k1 example_snapshot_def)
  have manuals: "length (filter (\<lambda>s. episodeId s = episode_id ?e \<and> snapshot_type s = manual_save)
                           (snapshots history_db)) = 3"
    unfolding history_snapshots by (simp add: k1 example_snapshot_def)
  note facts = retention_after_save [OF k fresh history_distinct, of "example_JSON []"]
  from facts have after: "snapshots (snd (saveEpisode (example_JSON []) Available clock1 history_db (Some ?e)))
      = cleanupSnapshots (episode_id ?e)
          (snapshots history_db @
           [\<lparr>snapshot_id = episode_id ?e @ ''-'' @ dec (Date_now clock1),
             episodeId = episode_id ?e,
             data = JSON_stringify (example_JSON []) (?e\<lparr>lastModified := Some (toISOString_1 clock1)\<rparr>),
             timestamp = toISOString_2 clock1, snapshot_type = auto_save\<rparr>])"
    by blast
  from facts autos manuals
  have thirteen: "length (filter (\<lambda>s. episodeId s = episode_id ?e)
        (snapshots (snd (saveEpisode (example_JSON []) Available clock1 history_db (Some ?e))))) = 13"
    by blast
  have ids: "map snapshot_id
     (snapshots (snd (saveEpisode (example_JSON []) Available clock1 history_db (Some ?e))))
   = [''ep-1-1700000007000'', ''ep-1-1700000008000'', ''ep-1-1700000009000'',
      ''ep-1-1700000010000'', ''ep-1-1700000011000'', ''ep-1-1700000012000'',
      ''ep-1-1700000013000'', ''ep-1-1700000014000'', ''ep-1-1700000015000'',
      ''ep-1-manual-1700000001500'', ''ep-1-manual-1700000007500'',
      ''ep-1-manual-1700000012500'', ''ep-2-1700000000500'', ''ep-1-1700000060001'']"
    unfolding after k1 d history_snapshots
    by (simp add: cleanupSnapshots_def sort_newest_first_def index_episodeId_def
        example_snapshot_def store_delete_def Let_def clock1_def)
  from ids thirteen show ?thesis
    by (simp only: k1)
qed

section \<open>Properties of the graph analyzer\<close>

subsection \<open>The traversal is a breadth-first search\<close>

lemma get_property_Own_iff: "get_property g k = Own scene \<longleftrightarrow> map_of g k = Some scene"
  by (simp add: get_property_def split: option.splits)

lemma get_property_Undefined: "get_property g k = Undefined \<Longrightarrow> map_of g k = None"
  by (simp add: get_property_def split: option.splits)

lemma get_property_Inherited_iff:
  "get_property g k = Inherited \<longleftrightarrow> k \<notin> fst ` set g \<and> k \<in> set object_prototype_names"
proof (cases "map_of g k")
  case None
  moreover from None have "k \<notin> fst ` set g"
    by (simp add: map_of_eq_None_iff)
  ultimately show ?thesis
    by (simp add: get_property_def)
next
  case (Some scene)
  then have "k \<in> fst ` set g"
    by (auto dest: map_of_SomeD intro: rev_image_eqI)
  with Some show ?thesis
    by (simp add: get_property_def)
qed

lemma scan_choices_None:
  "scan_choices t vis q cs = None \<Longrightarrow> t \<in> nextScene ` set cs"
  by (induction cs arbitrary: q) (auto split: if_splits)

lemma scan_choices_Some:
  "scan_choices t vis q cs = Some q' \<Longrightarrow>
   t \<notin> nextScene ` set cs \<and> set q \<subseteq> set q'
   \<and> set q' \<subseteq> set q \<union> nextScene ` set cs
   \<and> nextScene ` set cs \<subseteq> vis \<union> set q'"
proof (induction cs arbitrary: q)
  case Nil
  then show ?case by simp
next
  case (Cons c cs)
  from Cons.prems have c: "nextScene c \<noteq> t"
    by (auto split: if_splits)
  let ?q = "if nextScene c \<notin> vis then q @ [nextScene c] else q"
  from Cons.prems c have "scan_choices t vis ?q cs = Some q'"
    by simp
  from Cons.IH [OF this] c show ?case
    by (auto split: if_splits)
qed

lemma edges_iff:
  "(k, t) \<in> edges g \<longleftrightarrow> (\<exists>scene. map_of g k = Some scene \<and> t \<in> nextScene ` set (choices scene))"
  by (simp add: edges_def)

text \<open>
  The invariant of the loop: what is visited or queued is reachable, the successors of a
  visited name are visited or queued, and no visited name has the target as a successor.
  A loop that returns a boolean from such a state returns whether the target is the end
  of a non-empty path from \<^verbatim>\<open>start\<close>.
\<close>

lemma while_queue_sound:
  assumes "while_queue g t vis q = Inr b"
    and "\<forall>x \<in> vis \<union> set q. (''start'', x) \<in> (edges g)\<^sup>*"
    and "\<forall>u \<in> vis. \<forall>v. (u, v) \<in> edges g \<longrightarrow> v \<in> vis \<union> set q"
    and "\<forall>u \<in> vis. (u, t) \<notin> edges g"
    and "''start'' \<in> vis \<union> set q"
  shows "b \<longleftrightarrow> (''start'', t) \<in> (edges g)\<^sup>+"
  using assms
proof (induction g t vis q rule: while_queue.induct)
  case (1 g t vis)
  have closed: "x \<in> vis" if "(''start'', x) \<in> (edges g)\<^sup>*" for x
    using that
  proof (induction rule: rtrancl_induct)
    case base
    with "1.prems"(5) show ?case by simp
  next
    case (step y z)
    with "1.prems"(3) show ?case by auto
  qed
  have "(''start'', t) \<notin> (edges g)\<^sup>+"
  proof
    assume "(''start'', t) \<in> (edges g)\<^sup>+"
    then obtain u where "(''start'', u) \<in> (edges g)\<^sup>*" and "(u, t) \<in> edges g"
      by (auto elim: tranclE dest: trancl_into_rtrancl)
    with closed [of u] "1.prems"(4) show False by auto
  qed
  moreover from "1.prems"(1) have "b = False" by (simp add: while_queue.simps)
  ultimately show ?case by simp
next
  case (2 g t vis c q)
  show ?case
  proof (cases "c \<in> vis")
    case True
    with "2.prems" have "while_queue g t vis q = Inr b"
      by (simp add: while_queue.simps)
    moreover have "\<forall>x \<in> vis \<union> set q. (''start'', x) \<in> (edges g)\<^sup>*"
      using "2.prems"(2) by auto
    moreover have "\<forall>u \<in> vis. \<forall>v. (u, v) \<in> edges g \<longrightarrow> v \<in> vis \<union> set q"
      using "2.prems"(3) True by auto
    moreover have "''start'' \<in> vis \<union> set q"
      using "2.prems"(5) True by auto
    ultimately show ?thesis
      using "2.IH"(1) [OF True] "2.prems"(4) by blast
  next
    case False
    have c_reach: "(''start'', c) \<in> (edges g)\<^sup>*"
      using "2.prems"(2) by simp
    show ?thesis
    proof (cases "get_property g c")
      case Undefined
      then have none: "map_of g c = None"
        by (rule get_property_Undefined)
      from "2.prems"(1) False Undefined have "while_queue g t (insert c vis) q = Inr b"
        by (simp add: while_queue.simps)
      moreover have "\<forall>x \<in> insert c vis \<union> set q. (''start'', x) \<in> (edges g)\<^sup>*"
        using "2.prems"(2) by auto
      moreover have "\<forall>u \<in> insert c vis. \<forall>v. (u, v) \<in> edges g \<longrightarrow> v \<in> insert c vis \<union> set q"
        using "2.prems"(3) none by (auto simp: edges_iff)
      moreover have "\<forall>u \<in> insert c vis. (u, t) \<notin> edges g"
        using "2.prems"(4) none by (auto simp: edges_iff)
      moreover have "''start'' \<in> insert c vis \<union> set q"
        using "2.prems"(5) by auto
      ultimately show ?thesis
        using "2.IH"(2) [OF False Undefined] by blast
    next
      case Inherited
      with "2.prems"(1) False show ?thesis by (simp add: while_queue.simps)
    next
      case (Own scene)
      then have some: "map_of g c = Some scene"
        by (simp add: get_property_Own_iff)
      show ?thesis
      proof (cases "scan_choices t (insert c vis) q (choices scene)")
        case None
        from scan_choices_None [OF None] some have "(c, t) \<in> edges g"
          by (auto simp: edges_iff)
        with c_reach have "(''start'', t) \<in> (edges g)\<^sup>+"
          by (rule rtrancl_into_trancl1)
        moreover from "2.prems"(1) False Own None have "b = True"
          by (simp add: while_queue.simps)
        ultimately show ?thesis by simp
      next
        case (Some q')
        note scan = scan_choices_Some [OF Some]
        from "2.prems"(1) False Own Some have "while_queue g t (insert c vis) q' = Inr b"
          by (simp add: while_queue.simps)
        moreover have "\<forall>x \<in> insert c vis \<union> set q'. (''start'', x) \<in> (edges g)\<^sup>*"
        proof
          fix x assume "x \<in> insert c vis \<union> set q'"
          then consider "x \<in> insert c vis \<union> set q" | "x \<in> nextScene ` set (choices scene)"
            using scan by blast
          then show "(''start'', x) \<in> (edges g)\<^sup>*"
          proof cases
            case 1
            with "2.prems"(2) show ?thesis by auto
          next
            case 2
            with some have "(c, x) \<in> edges g"
              by (auto simp: edges_iff)
            with c_reach show ?thesis
              by (rule rtrancl_into_rtrancl)
          qed
        qed
        moreover have "\<forall>u \<in> insert c vis. \<forall>v. (u, v) \<in> edges g \<longrightarrow> v \<in> insert c vis \<union> set q'"
        proof (intro ballI allI impI)
          fix u v assume u: "u \<in> insert c vis" and uv: "(u, v) \<in> edges g"
          show "v \<in> insert c vis \<union> set q'"
          proof (cases "u = c")
            case True
            with uv some have "v \<in> nextScene ` set (choices scene)"
              by (auto simp: edges_iff)
            with scan show ?thesis by blast
          next
            case False
            with u uv "2.prems"(3) have "v \<in> vis \<union> set (c # q)"
              by auto
            with scan show ?thesis by auto
          qed
        qed
        moreover have "\<forall>u \<in> insert c vis. (u, t) \<notin> edges g"
          using "2.prems"(4) scan some by (auto simp: edges_iff)
        moreover have "''start'' \<in> insert c vis \<union> set q'"
          using "2.prems"(5) scan by auto
        ultimately show ?thesis
          using "2.IH"(3) [OF False Own Some] by blast
      qed
    qed
  qed
qed

text \<open>Whenever \<open>isSceneReachable\<close> returns a boolean, it is the right one.\<close>

lemma isSceneReachable_sound:
  assumes "isSceneReachable g t = Inr b"
  shows "b \<longleftrightarrow> reachable g t"
proof (cases "t = ''start''")
  case True
  with assms show ?thesis
    by (simp add: isSceneReachable_def reachable_def)
next
  case False
  with assms have "while_queue g t {} [''start''] = Inr b"
    by (simp add: isSceneReachable_def)
  from while_queue_sound [OF this] have "b \<longleftrightarrow> (''start'', t) \<in> (edges g)\<^sup>+"
    by simp
  also have "\<dots> \<longleftrightarrow> (''start'', t) \<in> (edges g)\<^sup>*"
    using False by (auto simp: rtrancl_eq_or_trancl)
  finally show ?thesis
    by (simp add: reachable_def)
qed

lemma start_not_inherited': "get_property g ''start'' \<noteq> Inherited"
  by (simp add: get_property_Inherited_iff object_prototype_names_def)

lemma target_not_inherited:
  assumes "inherited_target_free g" and "x \<in> choice_targets g"
  shows "get_property g x \<noteq> Inherited"
  using assms by (auto simp: inherited_target_free_def get_property_Inherited_iff)

text \<open>
  The loop returns a boolean, on cyclic graphs as on others, as long as no name inherited
  from the prototype is queued.
\<close>

lemma while_queue_returns:
  assumes "inherited_target_free g" and "\<forall>x \<in> set q. get_property g x \<noteq> Inherited"
  shows "\<exists>b. while_queue g t vis q = Inr b"
  using assms
proof (induction g t vis q rule: while_queue.induct)
  case (1 g t vis)
  have "while_queue g t vis [] = Inr False" by (simp add: while_queue.simps)
  then show ?case ..
next
  case (2 g t vis c q)
  show ?case
  proof (cases "c \<in> vis")
    case True
    with "2.IH"(1) [OF True] "2.prems" show ?thesis by (simp add: while_queue.simps)
  next
    case False
    show ?thesis
    proof (cases "get_property g c")
      case Undefined
      with "2.IH"(2) [OF False Undefined] "2.prems" False show ?thesis
        by (simp add: while_queue.simps)
    next
      case Inherited
      with "2.prems"(2) show ?thesis by simp
    next
      case (Own scene)
      show ?thesis
      proof (cases "scan_choices t (insert c vis) q (choices scene)")
        case None
        with False Own have "while_queue g t vis (c # q) = Inr True"
          by (simp add: while_queue.simps)
        then show ?thesis ..
      next
        case (Some q')
        have "\<forall>x \<in> set q'. get_property g x \<noteq> Inherited"
        proof
          fix x assume "x \<in> set q'"
          with scan_choices_Some [OF Some] consider "x \<in> set q" | "x \<in> nextScene ` set (choices scene)"
            by blast
          then show "get_property g x \<noteq> Inherited"
          proof cases
            case 1
            with "2.prems"(2) show ?thesis by simp
          next
            case 2
            with own_choices_targets [OF Own] have "x \<in> choice_targets g"
              by blast
            with "2.prems"(1) show ?thesis
              by (rule target_not_inherited)
          qed
        qed
        with "2.IH"(3) [OF False Own Some] "2.prems"(1) False Own Some show ?thesis
          by (simp add: while_queue.simps)
      qed
    qed
  qed
qed

text \<open>
  On every graph and from every state the loop ends, with a boolean or with the
  TypeError; \<open>while_queue\<close> is a total function, by the measure \<open>pending\<close> on the
  names not yet visited.
\<close>

lemma while_queue_outcome:
  "while_queue g t vis q
   \<in> {Inr True, Inr False, Inl (TypeError ''currentScene.choices is not iterable'')}"
proof (induction g t vis q rule: while_queue.induct)
  case (1 g t vis)
  then show ?case by (simp add: while_queue.simps)
next
  case (2 g t vis c q)
  show ?case
  proof (cases "c \<in> vis")
    case True
    with "2.IH"(1) show ?thesis by (simp add: while_queue.simps)
  next
    case False
    show ?thesis
    proof (cases "get_property g c")
      case Undefined
      with "2.IH"(2) [OF False] False show ?thesis by (simp add: while_queue.simps)
    next
      case Inherited
      with False show ?thesis by (simp add: while_queue.simps)
    next
      case (Own scene)
      show ?thesis
      proof (cases "scan_choices t (insert c vis) q (choices scene)")
        case None
        with False Own show ?thesis by (simp add: while_queue.simps)
      next
        case (Some q')
        with "2.IH"(3) [OF False Own Some] False Own show ?thesis
          by (simp add: while_queue.simps)
      qed
    qed
  qed
qed

lemma isSceneReachable_outcome:
  "isSceneReachable g t
   \<in> {Inr True, Inr False, Inl (TypeError ''currentScene.choices is not iterable'')}"
  using while_queue_outcome [of g t "{}" "[''start'']"] by (simp add: isSceneReachable_def)

text \<open>
  On a graph none of whose choices targets an inherited name, \<open>isSceneReachable\<close> decides
  reachability and \<open>findUnreachableScenes\<close> lists, in the order of the keys, the scenes
  that no path from \<^verbatim>\<open>start\<close> reaches; choices that name no scene are skipped.
\<close>

theorem isSceneReachable_correct:
  assumes "inherited_target_free g"
  shows "isSceneReachable g t = Inr (reachable g t)"
proof -
  have "\<forall>x \<in> set [''start'']. get_property g x \<noteq> Inherited"
    by (simp add: start_not_inherited')
  from while_queue_returns [OF assms this, of t "{}"]
  obtain b' where "while_queue g t {} [''start''] = Inr b'" ..
  then have "isSceneReachable g t = Inr (if t = ''start'' then True else b')"
    by (simp add: isSceneReachable_def)
  then obtain b where b: "isSceneReachable g t = Inr b" ..
  with isSceneReachable_sound [OF b] show ?thesis by simp
qed

lemma filter_unreachable_correct:
  assumes "inherited_target_free g"
  shows "filter_unreachable g ks = Inr (filter (\<lambda>k. \<not> reachable g k) ks)"
  by (induction ks) (simp_all add: isSceneReachable_correct [OF assms])

theorem findUnreachableScenes_correct:
  assumes "inherited_target_free g"
  shows "findUnreachableScenes g = Inr (filter (\<lambda>k. \<not> reachable g k) (map fst g))"
  by (simp add: findUnreachableScenes_def filter_unreachable_correct [OF assms])

lemma reachable_start: "reachable g ''start''"
  by (simp add: reachable_def)

lemma findUnreachableScenes_members:
  assumes "inherited_target_free g"
  shows "\<exists>ks. findUnreachableScenes g = Inr ks \<and> ''start'' \<notin> set ks
              \<and> (\<forall>k \<in> fst ` set g. k \<notin> set ks \<longleftrightarrow> reachable g k)"
  by (auto simp: findUnreachableScenes_correct [OF assms] reachable_start)

subsection \<open>The output of findBrokenLinks\<close>

lemma forEach_choice_eq:
  "forEach_choice g sid i cs acc =
     acc @ map (\<lambda>j. \<lparr>sceneId = sid, choiceIndex = i + j\<rparr>)
             (filter (\<lambda>j. get_property g (nextScene (cs ! j)) = Undefined) [0..<length cs])"
proof (induction cs arbitrary: i acc)
  case Nil
  then show ?case by simp
next
  case (Cons c cs)
  have upt: "[0..<length (c # cs)] = 0 # map Suc [0..<length cs]"
    by (simp add: upt_conv_Cons map_Suc_upt del: upt_Suc)
  show ?case
    unfolding upt by (simp add: Cons.IH filter_map comp_def)
qed

lemma forEach_scene_eq:
  "forEach_scene g entries acc = acc @ concat (map (broken_choices g) entries)"
  by (induction entries arbitrary: acc) (auto simp: forEach_choice_eq broken_choices_def)

text \<open>
  The output lists the entries of the graph in their order and, within an entry, the
  positions of its choices in ascending order, keeping the choices whose target
  \<^verbatim>\<open>scenes[nextScene]\<close> is undefined.
\<close>

theorem findBrokenLinks_eq:
  "findBrokenLinks g = concat (map (broken_choices g) g)"
  by (simp add: findBrokenLinks_def forEach_scene_eq)

theorem findBrokenLinks_iff:
  assumes "distinct (map fst g)"
  shows "\<lparr>sceneId = sid, choiceIndex = i\<rparr> \<in> set (findBrokenLinks g) \<longleftrightarrow>
         (\<exists>scene. map_of g sid = Some scene \<and> i < length (choices scene)
                  \<and> get_property g (nextScene (choices scene ! i)) = Undefined)"
proof
  assume "\<lparr>sceneId = sid, choiceIndex = i\<rparr> \<in> set (findBrokenLinks g)"
  then obtain scene where "(sid, scene) \<in> set g" and "i < length (choices scene)"
    and "get_property g (nextScene (choices scene ! i)) = Undefined"
    by (auto simp: findBrokenLinks_eq broken_choices_def)
  with assms show "\<exists>scene. map_of g sid = Some scene \<and> i < length (choices scene)
                  \<and> get_property g (nextScene (choices scene ! i)) = Undefined"
    by auto
next
  assume "\<exists>scene. map_of g sid = Some scene \<and> i < length (choices scene)
                  \<and> get_property g (nextScene (choices scene ! i)) = Undefined"
  then obtain scene where scene: "(sid, scene) \<in> set g" and i: "i < length (choices scene)"
    and broken: "get_property g (nextScene (choices scene ! i)) = Undefined"
    by (auto dest: map_of_SomeD)
  from i broken have "\<lparr>sceneId = sid, choiceIndex = i\<rparr> \<in> set (broken_choices g (sid, scene))"
    by (simp add: broken_choices_def)
  with scene show "\<lparr>sceneId = sid, choiceIndex = i\<rparr> \<in> set (findBrokenLinks g)"
    unfolding findBrokenLinks_eq by (auto intro: bexI [of _ "(sid, scene)"])
qed

text \<open>
  On a graph none of whose choices targets an inherited name, a link is reported exactly
  when its target is not a key of the graph.
\<close>

lemma broken_iff_not_a_key:
  assumes "inherited_target_free g" and "t \<in> choice_targets g"
  shows "get_property g t = Undefined \<longleftrightarrow> t \<notin> fst ` set g"
proof (cases "get_property g t")
  case Undefined
  then have "map_of g t = None"
    by (rule get_property_Undefined)
  then have "t \<notin> fst ` set g"
    by (simp add: map_of_eq_None_iff)
  with Undefined show ?thesis by simp
next
  case Inherited
  with target_not_inherited [OF assms] show ?thesis by simp
next
  case (Own scene)
  then have "(t, scene) \<in> set g"
    by (rule get_property_Own)
  then have "t \<in> fst ` set g"
    by (auto intro: rev_image_eqI)
  with Own show ?thesis by simp
qed

text \<open>
  The graph with the cycle \<^verbatim>\<open>start -> A -> B -> A\<close>: the scene \<^verbatim>\<open>C\<close> is unreachable, and
  the second choice of \<^verbatim>\<open>A\<close> is the one broken link.
\<close>

lemma cyclic_graph_analysis:
  "findUnreachableScenes cyclic_graph = Inr [''C'']
   \<and> findBrokenLinks cyclic_graph = [\<lparr>sceneId = ''A'', choiceIndex = 1\<rparr>]"
  by (simp add: findUnreachableScenes_def isSceneReachable_def findBrokenLinks_def
      cyclic_graph_def scene_with_def get_property_def object_prototype_names_def
      while_queue.simps)

text \<open>The template has no broken link and no unreachable scene.\<close>

lemma template_has_no_defects:
  "findBrokenLinks template_scenes = []
   \<and> findUnreachableScenes template_scenes = Inr []"
  by (simp add: findBrokenLinks_def findUnreachableScenes_def isSceneReachable_def
      template_scenes_def get_property_def while_queue.simps)

subsection \<open>Names inherited from the prototype\<close>

text \<open>
  C4 at a failing input. In \<open>constructor_graph\<close> choice 0 of the scene \<^verbatim>\<open>start\<close> targets
  \<^verbatim>\<open>constructor\<close>, which is not a key of the graph, so the claim puts the pair
  \<^verbatim>\<open>(start, 0)\<close> in the output of \<open>findBrokenLinks\<close>. The code reads
  \<^verbatim>\<open>scenes["constructor"]\<close>, finds the function inherited from \<^verbatim>\<open>Object.prototype\<close>, and
  reports nothing.
\<close>

theorem findBrokenLinks_misses_inherited_name:
  "map_of constructor_graph ''start''
     = Some \<lparr>scene_id = ''start'', scene_title = ''Scene'', scene_text = [],
             choices = [\<lparr>choice_text = ''Go'', nextScene = ''constructor''\<rparr>]\<rparr>
   \<and> ''constructor'' \<notin> fst ` set constructor_graph
   \<and> findBrokenLinks constructor_graph = []"
  by (simp add: constructor_graph_def scene_with_def findBrokenLinks_def get_property_def
      object_prototype_names_def)

text \<open>
  C9 at the same input. The scene \<^verbatim>\<open>brig\<close> is not the target of any choice, so the
  traversal dequeues \<^verbatim>\<open>constructor\<close>, the name of a scene that does not exist; the
  inherited function passes the guard \<^verbatim>\<open>if (!currentScene) continue\<close>, and the loop
  over its \<^verbatim>\<open>choices\<close> raises a TypeError instead of skipping the name.
\<close>

theorem isSceneReachable_faults_on_inherited_name:
  "isSceneReachable constructor_graph ''brig''
   = Inl (TypeError ''currentScene.choices is not iterable'')"
  by (simp add: isSceneReachable_def constructor_graph_def scene_with_def get_property_def
      object_prototype_names_def while_queue.simps)

text \<open>
  C3 at the same input. The scene \<^verbatim>\<open>brig\<close> is a key of the graph and no choice leads to
  it, so the claim puts it in the result of \<open>findUnreachableScenes\<close>. The call for
  \<^verbatim>\<open>brig\<close> raises the TypeError, and \<open>findUnreachableScenes\<close> returns no result.
\<close>

theorem findUnreachableScenes_faults_on_inherited_name:
  "map fst constructor_graph = [''start'', ''brig'']
   \<and> ''brig'' \<notin> choice_targets constructor_graph
   \<and> findUnreachableScenes constructor_graph
     = Inl (TypeError ''currentScene.choices is not iterable'')"
  by (simp add: findUnreachableScenes_def isSceneReachable_def constructor_graph_def
      scene_with_def get_property_def object_prototype_names_def choice_targets_def
      while_queue.simps)

end
